theory Spec2Isabelle
  imports Complex_Main
begin

section \<open>Attack and defense tiers (players.py, AttackType and DefenseType)\<close>

text \<open>Both enums carry the values 1, 2, 3; every comparison operator of either class
  compares the \<open>value\<close> fields.\<close>

datatype AttackType = A_basic | A_powerful | A_unstoppable

datatype DefenseType = D_basic | D_powerful | D_unstoppable

fun attack_value :: "AttackType \<Rightarrow> int" where
  "attack_value A_basic = 1"
| "attack_value A_powerful = 2"
| "attack_value A_unstoppable = 3"

fun defense_value :: "DefenseType \<Rightarrow> int" where
  "defense_value D_basic = 1"
| "defense_value D_powerful = 2"
| "defense_value D_unstoppable = 3"

datatype error = IndexError | AttributeError | MemberNotFound | TypeError

text \<open>\<open>AttackType.__gt__\<close>: \<open>self.value > other.value\<close>. An operand that is
  \<open>None\<close> has no \<open>value\<close> (for a \<open>None\<close> on the left Python falls back to the
  reflected \<open>DefenseType.__lt__\<close>, which reads \<open>other.value\<close>): AttributeError.\<close>

fun attack_gt :: "AttackType option \<Rightarrow> DefenseType option \<Rightarrow> error + bool" where
  "attack_gt (Some a) (Some d) = Inr (attack_value a > defense_value d)"
| "attack_gt _ _ = Inl AttributeError"

text \<open>\<open>DefenseType.__ge__\<close>, used by the godfather's kill submission in night_tasks.\<close>

fun defense_ge :: "DefenseType option \<Rightarrow> AttackType option \<Rightarrow> error + bool" where
  "defense_ge (Some d) (Some a) = Inr (defense_value d \<ge> attack_value a)"
| "defense_ge _ _ = Inl AttributeError"

section \<open>Roles and players (players.py)\<close>

datatype role =
    Citizen | Doctor | Sheriff | Jailor | PI | Lookout
  | Mafia | Janitor | Disguiser
  | Survivor | Jester | Executioner | Arsonist

fun is_mafia_role :: "role \<Rightarrow> bool" where
  "is_mafia_role Mafia = True"
| "is_mafia_role Janitor = True"
| "is_mafia_role Disguiser = True"
| "is_mafia_role _ = False"

fun is_citizen_role :: "role \<Rightarrow> bool" where
  "is_citizen_role Citizen = True"
| "is_citizen_role Doctor = True"
| "is_citizen_role Sheriff = True"
| "is_citizen_role Jailor = True"
| "is_citizen_role PI = True"
| "is_citizen_role Lookout = True"
| "is_citizen_role _ = False"

fun attack_type_role :: "role \<Rightarrow> AttackType option" where
  "attack_type_role Sheriff = Some A_basic"
| "attack_type_role Jailor = Some A_unstoppable"
| "attack_type_role Mafia = Some A_basic"
| "attack_type_role Janitor = Some A_basic"
| "attack_type_role Disguiser = Some A_basic"
| "attack_type_role Arsonist = Some A_unstoppable"
| "attack_type_role _ = None"

fun defense_type_role :: "role \<Rightarrow> DefenseType option" where
  "defense_type_role Doctor = Some D_powerful"
| "defense_type_role Jailor = Some D_powerful"
| "defense_type_role Survivor = Some D_basic"
| "defense_type_role Arsonist = Some D_basic"
| "defense_type_role _ = None"

fun can_kill_mafia_at_night_role :: "role \<Rightarrow> bool" where
  "can_kill_mafia_at_night_role Sheriff = True"
| "can_kill_mafia_at_night_role _ = False"

text \<open>\<open>__special_mafia__ = (Janitor, Disguiser)\<close>.\<close>

definition special_mafia :: "role list" where
  "special_mafia = [Janitor, Disguiser]"

text \<open>The attribute \<open>jailed\<close> is a bool on Player and a Player reference (initially
  None) on Jailor; \<open>cleanup_attrs\<close> and \<open>jail\<close> store bools into either.\<close>

datatype jailed_val = JFalse | JTrue | JNone | JRef nat

text \<open>A player object. References to other players (\<open>killed_by\<close>, \<open>protected_by\<close>,
  \<open>cleaned_by\<close>, \<open>disguised_as\<close>, \<open>visited_by\<close>) are positions in the roster
  \<open>game.players\<close>, which is never reordered or shrunk once play starts. The class
  attributes that a subclass fixes are functions of \<open>role\<close>.\<close>

record player =
  member :: int
  name :: string
  role :: role
  is_godfather :: bool
  dead :: bool
  killed_by :: "nat option"
  visited_by :: "nat list"
  protected_by :: "nat option"
  cleaned_by :: "nat option"
  disguised_as :: "nat option"
  doused :: bool
  lynched :: bool
  night_role_blocked :: bool
  jailed :: jailed_val
  cleans :: int
  jails :: int

definition is_mafia :: "player \<Rightarrow> bool" where
  "is_mafia p = is_mafia_role (role p)"

definition is_citizen :: "player \<Rightarrow> bool" where
  "is_citizen p = is_citizen_role (role p)"

definition attack_type :: "player \<Rightarrow> AttackType option" where
  "attack_type p = attack_type_role (role p)"

definition defense_type :: "player \<Rightarrow> DefenseType option" where
  "defense_type p = defense_type_role (role p)"

definition can_kill_mafia_at_night :: "player \<Rightarrow> bool" where
  "can_kill_mafia_at_night p = can_kill_mafia_at_night_role (role p)"

text \<open>\<open>role(member)\<close>: a fresh instance with the class defaults (\<open>cleans = 3\<close>,
  \<open>jails = 3\<close>, \<open>Jailor.jailed = None\<close>). \<open>visited_by\<close> starts as None and is set to
  the empty list by the first \<open>cleanup_attrs\<close>, before any visit; it is the empty list
  here.\<close>

definition new_player :: "role \<Rightarrow> int \<Rightarrow> string \<Rightarrow> player" where
  "new_player r m n = \<lparr> member = m, name = n, role = r, is_godfather = False, dead = False,
     killed_by = None, visited_by = [], protected_by = None, cleaned_by = None,
     disguised_as = None, doused = False, lynched = False, night_role_blocked = False,
     jailed = (if r = Jailor then JNone else JFalse), cleans = 3, jails = 3 \<rparr>"

section \<open>The game (game.py, MafiaGame)\<close>

record game =
  players :: "player list"
  is_day :: bool
  day :: int

text \<open>\<open>total_mafia\<close>: \<open>sum(1 for player in self.players if player.is_mafia and not
  player.dead)\<close>; \<open>total_alive\<close> likewise.\<close>

definition total_mafia :: "game \<Rightarrow> int" where
  "total_mafia g = sum_list (map (\<lambda>p. 1) (filter (\<lambda>p. is_mafia p \<and> \<not> dead p) (players g)))"

definition total_alive :: "game \<Rightarrow> int" where
  "total_alive g = sum_list (map (\<lambda>p. 1) (filter (\<lambda>p. \<not> dead p) (players g)))"

text \<open>\<open>Mafia.win_condition\<close>. \<open>/\<close> is Python's true division; on counts of players
  it is exact, so the quotient is taken in the rationals.\<close>

definition win_condition_Mafia :: "game \<Rightarrow> bool" where
  "win_condition_Mafia g =
     (if is_day g then
        (if list_ex can_kill_mafia_at_night (filter (\<lambda>p. \<not> dead p) (players g))
         then False
         else (of_int (total_mafia g) :: rat) \<ge> of_int (total_alive g) / 2)
      else (of_int (total_mafia g) :: rat) > of_int (total_alive g) / 2)"

section \<open>What the game sends (the calls into the chat platform)\<close>

text \<open>The texts the game formats, with the values interpolated into each. A player is
  rendered by its mention or name (here: its position in the roster) and \<open>str(player)\<close>
  is the name of its class, the role.\<close>

datatype message =
    GameStarted
  | NoOneKilled
  | KilledBy nat role role
  | KilledDuringNight nat role
  | SavedBy role
  | SavedFromAttack
  | Cleaned nat role
  | YouAreGodfather
  | NominatedForHanging nat
  | TownLynched nat role

text \<open>\<open>PlayerChannelSend i m\<close>: \<open>players[i].channel.send(m)\<close>, private to that
  player; \<open>MafiaChatSend\<close>: the mafia's channel; \<open>ChatSend\<close>: the public chat;
  \<open>DayNotification\<close>: the call \<open>day_notification(*notifs)\<close>, the public summary
  posted in the info channel. Every player has its channel from \<open>setup_channels\<close> on,
  so the guards \<open>if player.channel\<close> are true.\<close>

datatype event =
    PlayerChannelSend nat message
  | MafiaChatSend message
  | ChatSend message
  | DayNotification "message list"

section \<open>Godfather selection (game.py, choose_godfather)\<close>

text \<open>\<open>random.choice(seq)\<close> raises IndexError on an empty sequence and returns
  \<open>seq[randbelow(len(seq))]\<close> otherwise. The entropy is the argument \<open>r\<close>, reduced
  below the length.\<close>

definition choice :: "'a list \<Rightarrow> nat \<Rightarrow> error + 'a" where
  "choice xs r = (if xs = [] then Inl IndexError else Inr (xs ! (r mod length xs)))"

text \<open>The list comprehension of \<open>choose_godfather\<close>: every player of the roster that
  is mafia and whose class is not in \<open>__special_mafia__\<close>. It does not look at
  \<open>dead\<close>.\<close>

definition godfather_candidates :: "game \<Rightarrow> nat list" where
  "godfather_candidates g =
     filter (\<lambda>i. is_mafia (players g ! i) \<and> role (players g ! i) \<notin> set special_mafia)
       [0..<length (players g)]"

definition set_godfather :: "nat \<Rightarrow> bool \<Rightarrow> game \<Rightarrow> game" where
  "set_godfather i b g = g\<lparr>players := (players g)[i := (players g ! i)\<lparr>is_godfather := b\<rparr>]\<rparr>"

definition choose_godfather :: "nat \<Rightarrow> game \<Rightarrow> error + (game \<times> event list)" where
  "choose_godfather r g =
     (case choice (godfather_candidates g) r of
        Inl e \<Rightarrow> Inl e
      | Inr i \<Rightarrow> Inr (set_godfather i True g, [PlayerChannelSend i YouAreGodfather]))"

text \<open>The property \<open>godfather\<close>: the first player of the roster with \<open>is_godfather\<close>
  that is not dead, None when there is none.\<close>

definition godfather :: "game \<Rightarrow> nat option" where
  "godfather g =
     (case filter (\<lambda>i. is_godfather (players g ! i) \<and> \<not> dead (players g ! i))
             [0..<length (players g)] of
        [] \<Rightarrow> None
      | i # _ \<Rightarrow> Some i)"

section \<open>Resolving the night (game.py, pre_day)\<close>

definition cleanup_attrs :: "player \<Rightarrow> player" where
  "cleanup_attrs p = p\<lparr>visited_by := [], killed_by := None, protected_by := None,
     night_role_blocked := False, cleaned_by := None, disguised_as := None,
     jailed := JFalse\<rparr>"

definition set_dead :: "nat \<Rightarrow> game \<Rightarrow> game" where
  "set_dead i g = g\<lparr>players := (players g)[i := (players g ! i)\<lparr>dead := True\<rparr>]\<rparr>"

text \<open>The locals of \<open>pre_day\<close> while its loop runs: the game, \<open>notifs\<close>, \<open>killed\<close>,
  what has been sent so far, and how many random draws have been made.\<close>

record pre_day_state =
  st_game :: game
  st_notifs :: "message list"
  st_killed :: "nat list"
  st_events :: "event list"
  st_draws :: nat

text \<open>The test \<open>player.protected_by and killer.attack_type >
  player.protected_by.defense_type\<close>; \<open>and\<close> does not evaluate the comparison for an
  unprotected player.\<close>

definition protected_test :: "game \<Rightarrow> player \<Rightarrow> nat \<Rightarrow> error + bool" where
  "protected_test g p k =
     (case protected_by p of
        None \<Rightarrow> Inr False
      | Some q \<Rightarrow> attack_gt (attack_type (players g ! k)) (defense_type (players g ! q)))"

text \<open>The branch \<open>if cleaner := player.cleaned_by\<close> and its \<open>else\<close>.\<close>

definition announce_death :: "nat \<Rightarrow> player \<Rightarrow> role \<Rightarrow> pre_day_state \<Rightarrow> pre_day_state" where
  "announce_death i p killer_role s =
     (case cleaned_by p of
        Some c \<Rightarrow> s\<lparr>st_events := st_events s @ [PlayerChannelSend c (Cleaned i (role p))]\<rparr>
      | None \<Rightarrow> s\<lparr>st_notifs := st_notifs s @ [KilledBy i (role p) killer_role],
                  st_events := st_events s @ [ChatSend (KilledDuringNight i (role p))],
                  st_killed := st_killed s @ [i]\<rparr>)"

text \<open>One pass of the loop \<open>for player in self.players\<close>, for the player at position
  \<open>i\<close>. \<open>rnd\<close> is the stream of random draws.\<close>

definition pre_day_player :: "(nat \<Rightarrow> nat) \<Rightarrow> nat \<Rightarrow> pre_day_state \<Rightarrow> error + pre_day_state" where
  "pre_day_player rnd i s =
     (let g = st_game s; p = players g ! i in
      if dead p then Inr s
      else case killed_by p of
        None \<Rightarrow> Inr s
      | Some k \<Rightarrow>
          (case protected_test g p k of
             Inl e \<Rightarrow> Inl e
           | Inr True \<Rightarrow>
               Inr (s\<lparr>st_events := st_events s
                     @ [PlayerChannelSend i (SavedBy (role (players g ! the (protected_by p))))]
                     @ (if is_mafia (players g ! k) then [MafiaChatSend SavedFromAttack] else [])\<rparr>)
           | Inr False \<Rightarrow>
               (let s1 = announce_death i p (role (players g ! k)) s;
                    g1 = set_dead i g
                in if is_godfather p then
                     (case choose_godfather (rnd (st_draws s)) g1 of
                        Inl e \<Rightarrow> Inl e
                      | Inr (g2, evs) \<Rightarrow>
                          Inr (s1\<lparr>st_game := set_godfather i False g2,
                                  st_events := st_events s1 @ evs,
                                  st_draws := Suc (st_draws s)\<rparr>))
                   else Inr (s1\<lparr>st_game := g1\<rparr>))))"

fun pre_day_loop :: "(nat \<Rightarrow> nat) \<Rightarrow> nat list \<Rightarrow> pre_day_state \<Rightarrow> error + pre_day_state" where
  "pre_day_loop rnd [] s = Inr s"
| "pre_day_loop rnd (i # js) s =
     (case pre_day_player rnd i s of
        Inl e \<Rightarrow> Inl e
      | Inr s' \<Rightarrow> pre_day_loop rnd js s')"

definition cleanup_living :: "game \<Rightarrow> game" where
  "cleanup_living g = g\<lparr>players := map (\<lambda>p. if \<not> dead p then cleanup_attrs p else p) (players g)\<rparr>"

text \<open>\<open>pre_day\<close>: the game after it and everything it sent, or the exception that
  left it.\<close>

definition pre_day :: "(nat \<Rightarrow> nat) \<Rightarrow> game \<Rightarrow> error + (game \<times> event list)" where
  "pre_day rnd g =
     (if day g > 1 then
        (case pre_day_loop rnd [0..<length (players g)]
                \<lparr>st_game = g, st_notifs = [], st_killed = [], st_events = [], st_draws = 0\<rparr> of
           Inl e \<Rightarrow> Inl e
         | Inr s \<Rightarrow>
             Inr (cleanup_living (st_game s),
                  st_events s
                  @ [DayNotification (st_notifs s @ (if st_killed s = [] then [NoOneKilled] else []))]))
      else Inr (cleanup_living g, [DayNotification [GameStarted]]))"


section \<open>Resolving a name to a player (utils.py, get_mafia_player)\<close>

text \<open>A \<open>discord.Message\<close>: where it was posted, who wrote it (the member's id) and its
  text.\<close>

datatype channel =
    InfoChannel | ChatChannel | JailChannel | MafiaChatChannel | DeadChatChannel
  | PlayerChannel nat
  | OtherChannel nat

record chat_message =
  m_channel :: channel
  m_author :: int
  m_content :: string

text \<open>The two patterns \<open>([0-9]{15,20})$\<close> and \<open><@!?([0-9]{15,20})>$\<close>, tried with
  \<open>re.match\<close>, which anchors at the start. \<open>$\<close> matches at the end of the text and
  also just before a newline that ends it.\<close>

definition is_digit :: "char \<Rightarrow> bool" where
  "is_digit c = (c \<in> set ''0123456789'')"

definition int_of_digits :: "string \<Rightarrow> int" where
  "int_of_digits s = foldl (\<lambda>n c. 10 * n + (of_char c - 48)) 0 s"

definition id_digits :: "string \<Rightarrow> int option" where
  "id_digits s =
     (if 15 \<le> length s \<and> length s \<le> 20 \<and> list_all is_digit s
      then Some (int_of_digits s) else None)"

definition chomp :: "string \<Rightarrow> string" where
  "chomp s = (if s \<noteq> [] \<and> last s = CHR 0x0A then butlast s else s)"

definition match_plain :: "string \<Rightarrow> int option" where
  "match_plain s = id_digits (chomp s)"

definition match_mention :: "string \<Rightarrow> int option" where
  "match_mention s =
     (let t = chomp s in
      if take 2 t = ''<@'' \<and> last t = CHR ''>'' then
        (let body = butlast (drop 2 t);
             body' = (if body \<noteq> [] \<and> hd body = CHR ''!'' then tl body else body)
         in id_digits body')
      else None)"

definition match_user_id :: "string \<Rightarrow> int option" where
  "match_user_id s = (case match_plain s of Some n \<Rightarrow> Some n | None \<Rightarrow> match_mention s)"

text \<open>\<open>discord.utils.get(players, ...)\<close>: the first element that satisfies the test,
  None when there is none.\<close>

fun first_index :: "('a \<Rightarrow> bool) \<Rightarrow> 'a list \<Rightarrow> nat option" where
  "first_index P [] = None"
| "first_index P (x # xs) =
     (if P x then Some 0 else map_option Suc (first_index P xs))"

text \<open>\<open>get_mafia_player\<close>. The game is always there (\<open>if not game\<close> is for a guild
  without one). A text that is not an id or a mention goes to fuzzywuzzy's
  \<open>process.extractBests(arg, choices, score_cutoff=80, limit=1)\<close>, a library outside
  the repository: \<open>best\<close> stands for it, giving the position in the roster of the best
  match that scores at least 80, if any. A position outside the roster counts as no
  match.\<close>

type_synonym matcher = "string \<Rightarrow> string list \<Rightarrow> nat option"

definition get_mafia_player :: "matcher \<Rightarrow> game \<Rightarrow> string \<Rightarrow> error + nat" where
  "get_mafia_player best g arg =
     (let result =
        (case match_user_id arg of
           None \<Rightarrow> best arg (map name (players g))
         | Some user_id \<Rightarrow> first_index (\<lambda>p. member p = user_id) (players g))
      in case result of
           None \<Rightarrow> Inl MemberNotFound
         | Some i \<Rightarrow> if i < length (players g) then Inr i else Inl MemberNotFound)"

section \<open>Nominations (utils.py, nomination_check)\<close>

text \<open>The dict \<open>nominations\<close>: a count per nominated player and, under the key
  \<open>"nomination"\<close>, the player whose count reached what is needed.\<close>

record nominations =
  counts :: "nat \<Rightarrow> int option"
  nomination :: "nat option"

definition no_nominations :: nominations where
  "no_nominations = \<lparr>counts = (\<lambda>_. None), nomination = None\<rparr>"

definition noms_needed :: "game \<Rightarrow> bool \<Rightarrow> int" where
  "noms_needed g mafia = (if mafia then (if total_mafia g \<noteq> 0 then 1 else 2) else 2)"

text \<open>\<open>m.content.split(">>nominate ")[1]\<close> for a text that starts with the separator:
  what follows it, up to the next occurrence of the separator.\<close>

fun until_sep :: "string \<Rightarrow> string \<Rightarrow> string" where
  "until_sep sep [] = []"
| "until_sep sep (c # cs) =
     (if take (length sep) (c # cs) = sep then [] else c # until_sep sep cs)"

definition nominate_prefix :: string where
  "nominate_prefix = ''>>nominate ''"

text \<open>The closure \<open>check\<close> that \<open>nomination_check\<close> returns, run on one message: whether
  it returned True, and the dict after it. The reply "nominated, need one more" is left
  out.\<close>

definition nomination_check ::
  "matcher \<Rightarrow> game \<Rightarrow> channel \<Rightarrow> bool \<Rightarrow> nominations \<Rightarrow> chat_message \<Rightarrow> bool \<times> nominations" where
  "nomination_check best g chan mafia noms m =
     (if m_channel m \<noteq> chan then (False, noms)
      else if m_author m \<notin> set (map member (players g)) then (False, noms)
      else if take (length nominate_prefix) (m_content m) \<noteq> nominate_prefix then (False, noms)
      else
        (case get_mafia_player best g
                (until_sep nominate_prefix (drop (length nominate_prefix) (m_content m))) of
           Inl e \<Rightarrow> (False, noms)
         | Inr player \<Rightarrow>
             (let nominator = first_index (\<lambda>p. member p = m_author m) (players g) in
              if nominator = Some player then (False, noms)
              else if dead (players g ! player) then (False, noms)
              else if mafia \<and> is_mafia (players g ! player) then (False, noms)
              else
                (let n = (case counts noms player of None \<Rightarrow> 0 | Some c \<Rightarrow> c) + 1;
                     noms' = noms\<lparr>counts := (counts noms)(player \<mapsto> n)\<rparr>
                 in if n = noms_needed g mafia
                    then (True, noms'\<lparr>nomination := Some player\<rparr>)
                    else (False, noms')))))"

text \<open>\<open>bot.wait_for("message", check=...)\<close> over the messages that arrive before the
  day ends: it returns at the first message the check accepts, and is cancelled if there is
  none.\<close>

fun wait_for_nomination ::
  "matcher \<Rightarrow> game \<Rightarrow> channel \<Rightarrow> bool \<Rightarrow> nominations \<Rightarrow> chat_message list \<Rightarrow> bool \<times> nominations" where
  "wait_for_nomination best g chan mafia noms [] = (False, noms)"
| "wait_for_nomination best g chan mafia noms (m # ms) =
     (case nomination_check best g chan mafia noms m of
        (True, noms') \<Rightarrow> (True, noms')
      | (False, noms') \<Rightarrow> wait_for_nomination best g chan mafia noms' ms)"






section \<open>Private choices and the godfather's kill (utils.py)\<close>

text \<open>The closure of \<open>private_channel_check(game, player, can_choose_self)\<close> on one
  message; the reply "You cannot chooose yourself" is left out. Falling off the end
  returns None, which \<open>wait_for\<close> reads as False.\<close>

definition private_channel_check :: "matcher \<Rightarrow> game \<Rightarrow> nat \<Rightarrow> bool \<Rightarrow> chat_message \<Rightarrow> bool" where
  "private_channel_check best g player can_choose_self m =
     (if m_channel m \<noteq> PlayerChannel player then False
      else if m_author m \<noteq> member (players g ! player) then False
      else
        (case get_mafia_player best g (m_content m) of
           Inl e \<Rightarrow> False
         | Inr p \<Rightarrow> if \<not> can_choose_self \<and> player = p then False else True))"

text \<open>The closure of \<open>mafia_kill_check(game)\<close>. \<open>game.godfather\<close> is None when no
  living player is godfather, and \<open>None.member\<close> raises.\<close>

definition mafia_kill_check :: "matcher \<Rightarrow> game \<Rightarrow> chat_message \<Rightarrow> error + bool" where
  "mafia_kill_check best g m =
     (if m_channel m \<noteq> MafiaChatChannel then Inr False
      else
        (case godfather g of
           None \<Rightarrow> Inl AttributeError
         | Some gf \<Rightarrow>
             if m_author m \<noteq> member (players g ! gf) then Inr False
             else
               (case get_mafia_player best g (m_content m) of
                  Inl e \<Rightarrow> Inr False
                | Inr p \<Rightarrow> if is_mafia (players g ! p) then Inr False else Inr True)))"

section \<open>Night tasks (players.py)\<close>

text \<open>\<open>Player.kill\<close>, \<open>visit\<close>, \<open>clean\<close> and \<open>jail\<close>, and the update of the player
  at position \<open>t\<close> of the roster.\<close>

definition update_player :: "nat \<Rightarrow> (player \<Rightarrow> player) \<Rightarrow> game \<Rightarrow> game" where
  "update_player t f g = g\<lparr>players := (players g)[t := f (players g ! t)]\<rparr>"

definition visit :: "nat \<Rightarrow> player \<Rightarrow> player" where
  "visit by p = p\<lparr>visited_by := visited_by p @ [by]\<rparr>"

definition kill :: "nat \<Rightarrow> player \<Rightarrow> player" where
  "kill by p = visit by (p\<lparr>killed_by := Some by\<rparr>)"

definition clean :: "nat \<Rightarrow> player \<Rightarrow> player" where
  "clean by p = visit by (p\<lparr>cleaned_by := Some by\<rparr>)"

definition jail :: "nat \<Rightarrow> player \<Rightarrow> player" where
  "jail by p = visit by (p\<lparr>jailed := JTrue, protected_by := Some by\<rparr>)"

text \<open>The test of \<open>Sheriff.night_task\<close>: \<open>player.is_citizen or (player.disguised_as and
  player.disguised_as.is_citizen)\<close>.\<close>

definition sheriff_backfires :: "game \<Rightarrow> nat \<Rightarrow> bool" where
  "sheriff_backfires g t =
     (is_citizen (players g ! t) \<or>
      (case disguised_as (players g ! t) of
         None \<Rightarrow> False
       | Some d \<Rightarrow> is_citizen (players g ! d)))"

text \<open>A call that passes more positional arguments than the function has parameters
  raises TypeError; otherwise it gives what the function returns.\<close>

definition call_positional :: "nat \<Rightarrow> nat \<Rightarrow> 'a \<Rightarrow> error + 'a" where
  "call_positional params given result = (if given \<le> params then Inr result else Inl TypeError)"

text \<open>\<open>Player.wait_for_player\<close>. After sending its prompt it builds the check for
  \<open>wait_for\<close> with \<open>private_channel_check(game, self, mapping, not only_others)\<close>:
  four positional arguments, where \<open>utils.private_channel_check\<close> has the three
  parameters \<open>game\<close>, \<open>player\<close> and \<open>can_choose_self\<close>. \<open>answer\<close> is the player the
  awaited message would resolve to, None when the phase ends before an answer (which
  cancels the task where it waits).\<close>

definition wait_for_player :: "nat option \<Rightarrow> error + nat option" where
  "wait_for_player answer = call_positional 3 4 answer"

text \<open>The first step of \<open>mafia_check\<close> in \<open>night_tasks\<close>: it builds the check for
  \<open>wait_for\<close> with \<open>mafia_kill_check(self, mapping)\<close>, two positional arguments,
  where \<open>utils.mafia_kill_check\<close> has the one parameter \<open>game\<close>.\<close>

definition mafia_check :: "matcher \<Rightarrow> game \<Rightarrow> error + (chat_message \<Rightarrow> error + bool)" where
  "mafia_check best g = call_positional 1 2 (mafia_kill_check best g)"

text \<open>\<open>Sheriff.night_task\<close> of the sheriff at position \<open>self\<close>. \<open>Sheriff_night_with\<close> is
  the task for any outcome \<open>asked\<close> of its call of \<open>wait_for_player\<close>: an exception leaves
  the task, a cancelled wait ends it, and a player goes to the test.\<close>

definition Sheriff_night_with :: "nat \<Rightarrow> error + nat option \<Rightarrow> game \<Rightarrow> error + game" where
  "Sheriff_night_with self asked g =
     (case asked of
        Inl e \<Rightarrow> Inl e
      | Inr None \<Rightarrow> Inr g
      | Inr (Some t) \<Rightarrow>
          Inr (if sheriff_backfires g t
               then update_player t (visit self) (update_player self (kill self) g)
               else update_player t (kill self) g))"

definition Sheriff_night_task :: "nat \<Rightarrow> nat option \<Rightarrow> game \<Rightarrow> error + game" where
  "Sheriff_night_task self answer g = Sheriff_night_with self (wait_for_player answer) g"

text \<open>The comparison of \<open>PI.night_task\<close> for the two players it was given.\<close>

definition PI_same_alignment :: "game \<Rightarrow> nat \<Rightarrow> nat \<Rightarrow> bool" where
  "PI_same_alignment g p1 p2 =
     ((is_citizen (players g ! p1) \<and> is_citizen (players g ! p2)) \<or>
      (is_mafia (players g ! p1) \<and> is_mafia (players g ! p2)))"

text \<open>\<open>Janitor.night_task\<close> of the janitor at position \<open>self\<close>, likewise: the guard on
  \<open>cleans\<close> comes before the call of \<open>wait_for_player\<close>.\<close>

definition Janitor_night_with :: "nat \<Rightarrow> error + nat option \<Rightarrow> game \<Rightarrow> error + game" where
  "Janitor_night_with self asked g =
     (if cleans (players g ! self) \<le> 3 then Inr g
      else
        (case asked of
           Inl e \<Rightarrow> Inl e
         | Inr None \<Rightarrow> Inr g
         | Inr (Some t) \<Rightarrow>
             Inr (update_player self (\<lambda>p. p\<lparr>cleans := cleans p - 1\<rparr>)
                    (update_player t (clean self) g))))"

definition Janitor_night_task :: "nat \<Rightarrow> nat option \<Rightarrow> game \<Rightarrow> error + game" where
  "Janitor_night_task self answer g = Janitor_night_with self (wait_for_player answer) g"

section \<open>The day (game.py, day_tasks)\<close>

text \<open>\<open>Jailor.day_task\<close> of the jailor at position \<open>self\<close>, likewise.\<close>

definition Jailor_day_with :: "nat \<Rightarrow> error + nat option \<Rightarrow> game \<Rightarrow> error + game" where
  "Jailor_day_with self asked g =
     (if jails (players g ! self) \<le> 0 then Inr g
      else
        (case asked of
           Inl e \<Rightarrow> Inl e
         | Inr None \<Rightarrow> Inr g
         | Inr (Some t) \<Rightarrow>
             Inr (update_player self (\<lambda>p. p\<lparr>jailed := JRef t, jails := jails p - 1\<rparr>)
                    (update_player t (\<lambda>p. jail self (p\<lparr>night_role_blocked := True\<rparr>)) g))))"

definition Jailor_day_task :: "nat \<Rightarrow> nat option \<Rightarrow> game \<Rightarrow> error + game" where
  "Jailor_day_task self answer g = Jailor_day_with self (wait_for_player answer) g"

text \<open>\<open>p.day_task(self)\<close>: only Jailor overrides the empty method of Player.\<close>

definition day_task :: "nat \<Rightarrow> error + nat option \<Rightarrow> game \<Rightarrow> error + game" where
  "day_task i asked g =
     (if role (players g ! i) = Jailor then Jailor_day_with i asked g else Inr g)"

text \<open>The tasks of the living players, in roster order. \<open>choices i\<close> is the outcome of
  the call of \<open>wait_for_player\<close> in the task of player \<open>i\<close>. Each task is a task of its
  own: an exception ends that task and leaves the game as the task found it.\<close>

fun day_task_loop :: "(nat \<Rightarrow> error + nat option) \<Rightarrow> nat list \<Rightarrow> game \<Rightarrow> game" where
  "day_task_loop choices [] g = g"
| "day_task_loop choices (i # js) g =
     day_task_loop choices js
       (if dead (players g ! i) then g
        else (case day_task i (choices i) g of Inl e \<Rightarrow> g | Inr g' \<Rightarrow> g'))"

text \<open>The tally: a reaction counts when its user is the member of a player that is not
  dead.\<close>

definition count_votes :: "game \<Rightarrow> int list \<Rightarrow> int" where
  "count_votes g users =
     int (length (filter (\<lambda>u. filter (\<lambda>p. member p = u \<and> \<not> dead p) (players g) \<noteq> []) users))"

definition set_lynched :: "nat \<Rightarrow> game \<Rightarrow> game" where
  "set_lynched i g = g\<lparr>players := (players g)[i := (players g ! i)\<lparr>dead := True, lynched := True\<rparr>]\<rparr>"

text \<open>What the day receives from outside: the outcomes of the day prompts, the messages
  posted before the day ends, the users behind the two reactions when it ends, and the
  random draw.\<close>

record day_input =
  in_choices :: "nat \<Rightarrow> error + nat option"
  in_messages :: "chat_message list"
  in_yes :: "int list"
  in_no :: "int list"
  in_draw :: nat

text \<open>The lynching, the block under \<open>if yes_count > no_count\<close>. An IndexError from
  \<open>choose_godfather\<close> is caught and \<open>day_tasks\<close> returns at once, before the town is
  told.\<close>

definition lynch :: "nat \<Rightarrow> nat \<Rightarrow> game \<Rightarrow> game \<times> event list" where
  "lynch r t g =
     (let g1 = set_lynched t g;
          told = [DayNotification [TownLynched t (role (players g1 ! t))]]
      in if is_mafia (players g1 ! t) \<and> is_godfather (players g1 ! t) then
           (case choose_godfather r g1 of
              Inl e \<Rightarrow> (g1, [])
            | Inr (g2, evs) \<Rightarrow> (g2, evs @ told))
         else (g1, told))"

text \<open>\<open>day_tasks\<close>. The nomination prompt is only started when \<open>_day > 1\<close>, and the vote
  message \<open>msg\<close> exists only if that prompt returned; the check that lets it return has
  stored the nominee under \<open>"nomination"\<close>.\<close>

definition day_tasks :: "matcher \<Rightarrow> day_input \<Rightarrow> game \<Rightarrow> game \<times> event list" where
  "day_tasks best inp g =
     (let g1 = day_task_loop (in_choices inp) [0..<length (players g)] g;
          (opened, noms) =
            (if day g > 1
             then wait_for_nomination best g1 ChatChannel False no_nominations (in_messages inp)
             else (False, no_nominations))
      in if opened then
           (case nomination noms of
              None \<Rightarrow> (g1, [])
            | Some t \<Rightarrow>
                (let asked = [ChatSend (NominatedForHanging t)] in
                 if count_votes g1 (in_yes inp) > count_votes g1 (in_no inp)
                 then (case lynch (in_draw inp) t g1 of (g2, evs) \<Rightarrow> (g2, asked @ evs))
                 else (g1, asked)))
         else (g1, []))"

section \<open>Reading what pre_day announced\<close>

text \<open>A player without the two fields the loop of \<open>pre_day\<close> writes (\<open>dead\<close> and
  \<open>is_godfather\<close>): the loop leaves everything else as it found it.\<close>

definition without_flags :: "player \<Rightarrow> player" where
  "without_flags p = p\<lparr>dead := False, is_godfather := False\<rparr>"

text \<open>The players a message names. \<open>public_names\<close> collects them over everything sent
  where the town reads it: the public chat and the day notification. What goes to a
  player's own channel or to the mafia's channel is not public.\<close>

fun named_in :: "message \<Rightarrow> nat list" where
  "named_in (KilledBy j _ _) = [j]"
| "named_in (KilledDuringNight j _) = [j]"
| "named_in (Cleaned j _) = [j]"
| "named_in (NominatedForHanging j) = [j]"
| "named_in (TownLynched j _) = [j]"
| "named_in GameStarted = []"
| "named_in NoOneKilled = []"
| "named_in (SavedBy _) = []"
| "named_in SavedFromAttack = []"
| "named_in YouAreGodfather = []"

fun event_names :: "event \<Rightarrow> nat list" where
  "event_names (ChatSend m) = named_in m"
| "event_names (DayNotification ns) = concat (map named_in ns)"
| "event_names (PlayerChannelSend _ _) = []"
| "event_names (MafiaChatSend _) = []"

definition public_names :: "event list \<Rightarrow> nat list" where
  "public_names evs = concat (map event_names evs)"

text \<open>What \<open>pre_day\<close> sends for a victim \<open>i\<close>: to the cleaner alone when the body
  was cleaned, to the chat and into \<open>notifs\<close> otherwise.\<close>

definition announced :: "nat \<Rightarrow> game \<Rightarrow> event list \<Rightarrow> message list \<Rightarrow> bool" where
  "announced i g evs ns =
     (case cleaned_by (players g ! i) of
        Some c \<Rightarrow> PlayerChannelSend c (Cleaned i (role (players g ! i))) \<in> set evs
      | None \<Rightarrow> ChatSend (KilledDuringNight i (role (players g ! i))) \<in> set evs \<and>
          (case killed_by (players g ! i) of None \<Rightarrow> False
           | Some k \<Rightarrow> KilledBy i (role (players g ! i)) (role (players g ! k)) \<in> set ns))"



text \<open>Every player named in public so far was not cleaned.\<close>

definition public_inv :: "game \<Rightarrow> pre_day_state \<Rightarrow> bool" where
  "public_inv g0 s =
     (\<forall>j \<in> set (public_names (st_events s)) \<union> set (concat (map named_in (st_notifs s))).
        cleaned_by (players g0 ! j) = None)"

section \<open>Example games\<close>

text \<open>Morning of day 2: the godfather killed a citizen on whom a clean by the janitor is
  recorded, and the arsonist ignited the doctor.\<close>

definition cleaned_night_game :: game where
  "cleaned_night_game = \<lparr>players =
      [(new_player Mafia 100 ''al'')\<lparr>is_godfather := True\<rparr>,
       new_player Janitor 101 ''bo'',
       (new_player Citizen 102 ''cy'')\<lparr>killed_by := Some 0, cleaned_by := Some 1\<rparr>,
       (new_player Doctor 103 ''di'')\<lparr>killed_by := Some 4\<rparr>,
       new_player Arsonist 104 ''ed''],
     is_day = True, day = 2\<rparr>"




definition cleaned_night_after :: game where
  "cleaned_night_after = \<lparr>players =
      [(new_player Mafia 100 ''al'')\<lparr>is_godfather := True\<rparr>,
       new_player Janitor 101 ''bo'',
       (new_player Citizen 102 ''cy'')\<lparr>killed_by := Some 0, cleaned_by := Some 1, dead := True\<rparr>,
       (new_player Doctor 103 ''di'')\<lparr>killed_by := Some 4, dead := True\<rparr>,
       new_player Arsonist 104 ''ed''],
     is_day = True, day = 2\<rparr>"

definition cleaned_night_events :: "event list" where
  "cleaned_night_events =
     [PlayerChannelSend 1 (Cleaned 2 Citizen), ChatSend (KilledDuringNight 3 Doctor),
      DayNotification [KilledBy 3 Doctor Arsonist]]"

text \<open>Two mornings of day 2 that differ only in which of the two sheriffs shot the mafioso
  at position 1.\<close>

definition killer_a_game :: game where
  "killer_a_game = \<lparr>players =
      [(new_player Mafia 100 ''al'')\<lparr>is_godfather := True\<rparr>,
       (new_player Mafia 101 ''bo'')\<lparr>killed_by := Some 2, visited_by := [2]\<rparr>,
       new_player Sheriff 102 ''cy'',
       new_player Sheriff 103 ''di''],
     is_day = True, day = 2\<rparr>"

definition killer_b_game :: game where
  "killer_b_game = \<lparr>players =
      [(new_player Mafia 100 ''al'')\<lparr>is_godfather := True\<rparr>,
       (new_player Mafia 101 ''bo'')\<lparr>killed_by := Some 3, visited_by := [3]\<rparr>,
       new_player Sheriff 102 ''cy'',
       new_player Sheriff 103 ''di''],
     is_day = True, day = 2\<rparr>"

text \<open>Morning of day 2: the godfather (basic attack) shot a citizen under the doctor's
  protection (powerful defense), and the jailor (unstoppable attack) executed the mafioso
  in his jail, whom \<open>jail\<close> put under the jailor's own protection (powerful defense).\<close>

definition tier_night_game :: game where
  "tier_night_game = \<lparr>players =
      [(new_player Mafia 100 ''al'')\<lparr>is_godfather := True\<rparr>,
       (new_player Citizen 101 ''bo'')\<lparr>killed_by := Some 0, protected_by := Some 2,
          visited_by := [2, 0]\<rparr>,
       new_player Doctor 102 ''cy'',
       (new_player Mafia 103 ''di'')\<lparr>killed_by := Some 4, protected_by := Some 4,
          jailed := JTrue, visited_by := [4, 4]\<rparr>,
       (new_player Jailor 104 ''ed'')\<lparr>jailed := JRef 3, jails := 2\<rparr>],
     is_day = True, day = 2\<rparr>"

text \<open>Morning of day 2: the sheriff shot the godfather; a second plain mafioso lives.\<close>

definition succession_game :: game where
  "succession_game = \<lparr>players =
      [(new_player Mafia 100 ''al'')\<lparr>is_godfather := True, killed_by := Some 3,
          visited_by := [3]\<rparr>,
       new_player Mafia 101 ''bo'',
       new_player Citizen 102 ''cy'',
       new_player Sheriff 103 ''di'',
       new_player Doctor 104 ''ed''],
     is_day = True, day = 2\<rparr>"




text \<open>The living mafia that hold the godfather designation.\<close>

definition living_godfathers :: "game \<Rightarrow> nat list" where
  "living_godfathers g =
     filter (\<lambda>i. is_mafia (players g ! i) \<and> \<not> dead (players g ! i) \<and> is_godfather (players g ! i))
       [0..<length (players g)]"


section \<open>Disguises\<close>

text \<open>The roster with the disguise of the player at \<open>t\<close> set to \<open>d\<close>: what
  \<open>Player.disguise\<close> records in \<open>disguised_as\<close>, or None for no disguise.\<close>

definition set_disguise :: "nat \<Rightarrow> nat option \<Rightarrow> game \<Rightarrow> game" where
  "set_disguise t d g = update_player t (\<lambda>p. p\<lparr>disguised_as := d\<rparr>) g"

section \<open>Runs of the game\<close>

text \<open>The roster after \<open>pick_players\<close>: one fresh instance per member, with the class
  the shuffle gave it; the game starts by day with \<open>_day = 1\<close>.\<close>

definition start_game :: "(role \<times> int \<times> string) list \<Rightarrow> game" where
  "start_game specs =
     \<lparr>players = map (\<lambda>(r, m, n). new_player r m n) specs, is_day = True, day = 1\<rparr>"

text \<open>The operations above as the moves of a run, each with what it receives from
  outside: \<open>choose_godfather\<close>, \<open>pre_day\<close>, \<open>day_tasks\<close>, the increment of \<open>_day\<close> in
  \<open>_cycle\<close>, and the night tasks of a janitor and of a sheriff, for any outcome of their
  call of \<open>wait_for_player\<close>. A night task is a task of its own: an exception in it
  leaves the game as it was. A move of the game itself that raises, or a night task for a
  position that holds no such living player, ends the run.\<close>

datatype action =
    Choose nat
  | Morning "nat \<Rightarrow> nat"
  | Daytime matcher day_input
  | NextDay
  | JanitorNight nat "error + nat option"
  | SheriffNight nat "error + nat option"

fun step :: "action \<Rightarrow> game \<Rightarrow> game option" where
  "step (Choose r) g =
     (case choose_godfather r g of Inl e \<Rightarrow> None | Inr (g', evs) \<Rightarrow> Some g')"
| "step (Morning rnd) g =
     (case pre_day rnd g of Inl e \<Rightarrow> None | Inr (g', evs) \<Rightarrow> Some g')"
| "step (Daytime best inp) g = Some (fst (day_tasks best inp g))"
| "step NextDay g = Some (g\<lparr>day := day g + 1\<rparr>)"
| "step (JanitorNight j asked) g =
     (if j < length (players g) \<and> role (players g ! j) = Janitor \<and> \<not> dead (players g ! j)
      then Some (case Janitor_night_with j asked g of Inl e \<Rightarrow> g | Inr g' \<Rightarrow> g') else None)"
| "step (SheriffNight s asked) g =
     (if s < length (players g) \<and> role (players g ! s) = Sheriff \<and> \<not> dead (players g ! s)
      then Some (case Sheriff_night_with s asked g of Inl e \<Rightarrow> g | Inr g' \<Rightarrow> g') else None)"

fun run :: "action list \<Rightarrow> game \<Rightarrow> game option" where
  "run [] g = Some g"
| "run (a # as) g = (case step a g of None \<Rightarrow> None | Some g' \<Rightarrow> run as g')"

text \<open>No player has a clean recorded and every counter \<open>cleans\<close> is at its start
  value.\<close>

definition never_cleaned :: "game \<Rightarrow> bool" where
  "never_cleaned g = list_all (\<lambda>p. cleans p = 3 \<and> cleaned_by p = None) (players g)"

text \<open>The notices a cleaner received.\<close>

fun is_cleaner_notice :: "event \<Rightarrow> bool" where
  "is_cleaner_notice (PlayerChannelSend c (Cleaned v r)) = True"
| "is_cleaner_notice _ = False"


section \<open>Example days and runs\<close>

text \<open>Five players with Discord ids; the citizen is already dead.\<close>

definition day_roster :: "player list" where
  "day_roster =
     [(new_player Mafia 100000000000000000 ''al'')\<lparr>is_godfather := True\<rparr>,
      new_player Mafia 100000000000000001 ''bo'',
      (new_player Citizen 100000000000000002 ''cy'')\<lparr>dead := True\<rparr>,
      new_player Sheriff 100000000000000003 ''di'',
      new_player Jailor 100000000000000004 ''ed'']"

definition first_day_game :: game where
  "first_day_game = \<lparr>players = day_roster, is_day = True, day = 1\<rparr>"

definition second_day_game :: game where
  "second_day_game = \<lparr>players = day_roster, is_day = True, day = 2\<rparr>"

text \<open>The sheriff posts the same nomination of the godfather twice, by id and by mention;
  the sheriff votes yes and nobody of the game votes no.\<close>

definition nominate :: "int \<Rightarrow> string \<Rightarrow> chat_message" where
  "nominate a t = \<lparr>m_channel = ChatChannel, m_author = a, m_content = ''>>nominate '' @ t\<rparr>"

definition lynch_input :: day_input where
  "lynch_input =
     \<lparr>in_choices = (\<lambda>_. wait_for_player None),
      in_messages = [nominate 100000000000000003 ''100000000000000000'',
                     nominate 100000000000000003 ''<@100000000000000000>''],
      in_yes = [100000000000000003, 5],
      in_no = [100000000000000002, 7],
      in_draw = 1\<rparr>"



definition private_answer :: "string \<Rightarrow> chat_message" where
  "private_answer t = \<lparr>m_channel = PlayerChannel 3, m_author = 100000000000000003, m_content = t\<rparr>"

text \<open>The same day with the draw 0.\<close>

definition lynch_input_draw0 :: day_input where
  "lynch_input_draw0 = lynch_input\<lparr>in_draw := 0\<rparr>"

text \<open>A game of four from its start: the godfather is drawn, day 1 passes, and in the
  night the janitor is asked for a target and the sheriff shoots the godfather.\<close>

definition janitor_specs :: "(role \<times> int \<times> string) list" where
  "janitor_specs =
     [(Mafia, 100000000000000000, ''al''), (Janitor, 100000000000000001, ''bo''),
      (Citizen, 100000000000000002, ''cy''), (Sheriff, 100000000000000003, ''di'')]"

definition janitor_run :: "action list" where
  "janitor_run =
     [Choose 0, Morning (\<lambda>_. 0), Daytime (\<lambda>_ _. None) lynch_input, NextDay,
      JanitorNight 1 (Inr (Some 2)), SheriffNight 3 (Inr (Some 0))]"

text \<open>A game of five from its start to its third night: nothing happens on day 1, the
  town lynches one citizen on day 2 and the other on day 3, each nominated by the sheriff
  and by the godfather and voted out by the three others.\<close>

definition night_check_specs :: "(role \<times> int \<times> string) list" where
  "night_check_specs =
     [(Mafia, 100000000000000000, ''al''), (Mafia, 100000000000000001, ''bo''),
      (Sheriff, 100000000000000002, ''cy''), (Citizen, 100000000000000003, ''di''),
      (Citizen, 100000000000000004, ''ed'')]"

definition lynch_of :: "string \<Rightarrow> day_input" where
  "lynch_of t =
     \<lparr>in_choices = (\<lambda>_. wait_for_player None),
      in_messages = [nominate 100000000000000002 t, nominate 100000000000000000 t],
      in_yes = [100000000000000000, 100000000000000001, 100000000000000002],
      in_no = [],
      in_draw = 0\<rparr>"

definition night_check_run :: "action list" where
  "night_check_run =
     [Choose 0, Morning (\<lambda>_. 0), Daytime (\<lambda>_ _. None) (lynch_of ''100000000000000003''), NextDay,
      Morning (\<lambda>_. 0), Daytime (\<lambda>_ _. None) (lynch_of ''100000000000000003''), NextDay,
      Morning (\<lambda>_. 0), Daytime (\<lambda>_ _. None) (lynch_of ''100000000000000004''), NextDay]"


section \<open>Properties\<close>

subsection \<open>The mafia win condition\<close>

lemma sum_list_ones: "sum_list (map (\<lambda>p. 1::int) xs) = int (length xs)"
  by (induction xs) auto

lemma total_mafia_length:
  "total_mafia g = int (length (filter (\<lambda>p. is_mafia p \<and> \<not> dead p) (players g)))"
  by (simp add: total_mafia_def sum_list_ones)

lemma total_alive_length:
  "total_alive g = int (length (filter (\<lambda>p. \<not> dead p) (players g)))"
  by (simp add: total_alive_def sum_list_ones)

lemma half_le_rat: "((of_int a :: rat) \<ge> of_int b / 2) = (2 * a \<ge> b)"
proof -
  have "((of_int a :: rat) \<ge> of_int b / 2) = ((of_int b :: rat) \<le> of_int (2 * a))"
    by (simp add: field_simps)
  also have "\<dots> = (b \<le> 2 * a)" by (rule of_int_le_iff)
  finally show ?thesis .
qed

lemma half_less_rat: "((of_int a :: rat) > of_int b / 2) = (2 * a > b)"
proof -
  have "((of_int a :: rat) > of_int b / 2) = ((of_int b :: rat) < of_int (2 * a))"
    by (simp add: field_simps)
  also have "\<dots> = (b < 2 * a)" by (rule of_int_less_iff)
  finally show ?thesis .
qed

text \<open>\<open>Mafia.win_condition\<close> as a function of the flag \<open>is_day\<close>: with the flag set it is
  false as soon as some living player has \<open>can_kill_mafia_at_night\<close> and otherwise holds
  exactly when the living mafia are at least half of the living players; with the flag
  cleared it holds exactly when they are strictly more than half.\<close>

lemma win_condition_Mafia_by_flag:
  "win_condition_Mafia g =
     (if is_day g then
        \<not> (\<exists>p \<in> set (players g). \<not> dead p \<and> can_kill_mafia_at_night p) \<and>
        2 * length (filter (\<lambda>p. is_mafia p \<and> \<not> dead p) (players g))
          \<ge> length (filter (\<lambda>p. \<not> dead p) (players g))
      else
        2 * length (filter (\<lambda>p. is_mafia p \<and> \<not> dead p) (players g))
          > length (filter (\<lambda>p. \<not> dead p) (players g)))"
proof -
  have ex: "list_ex can_kill_mafia_at_night (filter (\<lambda>p. \<not> dead p) (players g))
      = (\<exists>p \<in> set (players g). \<not> dead p \<and> can_kill_mafia_at_night p)"
    by (auto simp: list_ex_iff)
  have le: "((of_int (total_mafia g) :: rat) \<ge> of_int (total_alive g) / 2)
      = (2 * length (filter (\<lambda>p. is_mafia p \<and> \<not> dead p) (players g))
          \<ge> length (filter (\<lambda>p. \<not> dead p) (players g)))"
    unfolding half_le_rat total_mafia_length total_alive_length by linarith
  have less: "((of_int (total_mafia g) :: rat) > of_int (total_alive g) / 2)
      = (2 * length (filter (\<lambda>p. is_mafia p \<and> \<not> dead p) (players g))
          > length (filter (\<lambda>p. \<not> dead p) (players g)))"
    unfolding half_less_rat total_mafia_length total_alive_length by linarith
  show ?thesis
    unfolding win_condition_Mafia_def ex le less by simp
qed


subsection \<open>Night resolution\<close>

lemma without_flags_update:
  "without_flags q = without_flags (xs ! i) \<Longrightarrow> map without_flags (xs[i := q]) = map without_flags xs"
proof (cases "i < length xs")
  case True
  assume "without_flags q = without_flags (xs ! i)"
  with True have "(map without_flags xs)[i := without_flags q] = map without_flags xs"
    by (simp add: list_update_same_conv)
  then show ?thesis by (simp add: map_update)
next
  case False
  then show ?thesis by (simp add: list_update_beyond not_less)
qed

lemma without_flags_set_dead [simp]: "map without_flags (players (set_dead i g)) = map without_flags (players g)"
  by (simp add: set_dead_def without_flags_update without_flags_def)

lemma without_flags_set_godfather [simp]: "map without_flags (players (set_godfather i b g)) = map without_flags (players g)"
  by (simp add: set_godfather_def without_flags_update without_flags_def)

lemma dead_set_godfather [simp]: "dead (players (set_godfather i b g) ! j) = dead (players g ! j)"
proof (cases "i < length (players g)")
  case True
  then show ?thesis by (cases "i = j") (simp_all add: set_godfather_def)
next
  case False
  then show ?thesis by (simp add: set_godfather_def list_update_beyond not_less)
qed


lemma dead_set_dead_other: "j \<noteq> i \<Longrightarrow> dead (players (set_dead i g) ! j) = dead (players g ! j)"
  by (auto simp add: set_dead_def)

lemma nth_beyond_same:
  "length xs = length ys \<Longrightarrow> length xs \<le> n \<Longrightarrow> xs ! n = ys ! n"
proof (induction xs arbitrary: ys n)
  case Nil
  then show ?case by simp
next
  case (Cons x xs)
  then obtain y ys' where ys: "ys = y # ys'" by (cases ys) auto
  from Cons.prems obtain m where n: "n = Suc m" by (cases n) auto
  with Cons ys show ?case by simp
qed

lemma map_eq_nth:
  assumes "map h xs = map h ys"
  shows "h (xs ! k) = h (ys ! k)"
proof -
  from assms have len: "length xs = length ys" by (rule map_eq_imp_length_eq)
  show ?thesis
  proof (cases "k < length xs")
    case True
    then have "h (xs ! k) = map h xs ! k" by simp
    also have "\<dots> = map h ys ! k" using assms by simp
    also have "\<dots> = h (ys ! k)" using True len by simp
    finally show ?thesis .
  next
    case False
    then have "length xs \<le> k" by simp
    with len have "xs ! k = ys ! k" by (rule nth_beyond_same)
    then show ?thesis by simp
  qed
qed

lemma without_flags_nth:
  assumes "map without_flags xs = map without_flags ys"
  shows "without_flags (xs ! k) = without_flags (ys ! k)"
proof -
  from assms have len: "length xs = length ys" by (rule map_eq_imp_length_eq)
  show ?thesis
  proof (cases "k < length xs")
    case True
    then have "without_flags (xs ! k) = map without_flags xs ! k" by simp
    also have "\<dots> = map without_flags ys ! k" using assms by simp
    also have "\<dots> = without_flags (ys ! k)" using True len by simp
    finally show ?thesis .
  next
    case False
    then have "length xs \<le> k" by simp
    with len have "xs ! k = ys ! k" by (rule nth_beyond_same)
    then show ?thesis by simp
  qed
qed

lemma without_flags_fields:
  assumes "without_flags p = without_flags q"
  shows "role p = role q" "killed_by p = killed_by q" "cleaned_by p = cleaned_by q"
    "protected_by p = protected_by q"
proof -
  have "role p = role (without_flags p)" "killed_by p = killed_by (without_flags p)"
    "cleaned_by p = cleaned_by (without_flags p)" "protected_by p = protected_by (without_flags p)"
    by (simp_all add: without_flags_def)
  moreover have "role q = role (without_flags q)" "killed_by q = killed_by (without_flags q)"
    "cleaned_by q = cleaned_by (without_flags q)" "protected_by q = protected_by (without_flags q)"
    by (simp_all add: without_flags_def)
  ultimately show "role p = role q" "killed_by p = killed_by q" "cleaned_by p = cleaned_by q"
    "protected_by p = protected_by q" using assms by simp_all
qed

lemma announced_static:
  assumes "map without_flags (players g) = map without_flags (players h)"
  shows "announced i g evs ns = announced i h evs ns"
proof -
  have "\<And>k. without_flags (players g ! k) = without_flags (players h ! k)" using assms by (rule without_flags_nth)
  then have "\<And>k. role (players g ! k) = role (players h ! k)"
    "\<And>k. killed_by (players g ! k) = killed_by (players h ! k)"
    "\<And>k. cleaned_by (players g ! k) = cleaned_by (players h ! k)"
    by (auto dest: without_flags_fields)
  then show ?thesis by (simp add: announced_def cong: option.case_cong)
qed

lemma announced_mono:
  "announced i g evs ns \<Longrightarrow> announced i g (evs @ evs') (ns @ ns')"
  by (auto simp: announced_def split: option.splits)

lemma choose_godfather_Inr:
  assumes "choose_godfather r g = Inr (g', evs)"
  obtains i where "i \<in> set (godfather_candidates g)" "g' = set_godfather i True g"
    "evs = [PlayerChannelSend i YouAreGodfather]"
proof -
  from assms have ne: "godfather_candidates g \<noteq> []"
    by (auto simp: choose_godfather_def choice_def split: if_splits)
  let ?i = "godfather_candidates g ! (r mod length (godfather_candidates g))"
  have "?i \<in> set (godfather_candidates g)" using ne by simp
  moreover from assms ne have "g' = set_godfather ?i True g" "evs = [PlayerChannelSend ?i YouAreGodfather]"
    by (auto simp: choose_godfather_def choice_def)
  ultimately show ?thesis using that by blast
qed

lemma pre_day_player_cases:
  assumes "pre_day_player rnd i s = Inr s'"
  obtains (skip) "s' = s" "dead (players (st_game s) ! i) \<or> killed_by (players (st_game s) ! i) = None"
  | (saved) k evs where "\<not> dead (players (st_game s) ! i)" "killed_by (players (st_game s) ! i) = Some k"
      "protected_test (st_game s) (players (st_game s) ! i) k = Inr True"
      "s' = s\<lparr>st_events := st_events s @ evs\<rparr>"
      "set evs \<subseteq> {PlayerChannelSend i (SavedBy (role (players (st_game s) ! the (protected_by (players (st_game s) ! i))))), MafiaChatSend SavedFromAttack}"
  | (died) k where "\<not> dead (players (st_game s) ! i)" "killed_by (players (st_game s) ! i) = Some k"
      "protected_test (st_game s) (players (st_game s) ! i) k = Inr False"
      "\<not> is_godfather (players (st_game s) ! i)"
      "s' = (announce_death i (players (st_game s) ! i) (role (players (st_game s) ! k)) s)\<lparr>st_game := set_dead i (st_game s)\<rparr>"
  | (succession) k j where "\<not> dead (players (st_game s) ! i)" "killed_by (players (st_game s) ! i) = Some k"
      "protected_test (st_game s) (players (st_game s) ! i) k = Inr False"
      "is_godfather (players (st_game s) ! i)"
      "j \<in> set (godfather_candidates (set_dead i (st_game s)))"
      "s' = (announce_death i (players (st_game s) ! i) (role (players (st_game s) ! k)) s)
          \<lparr>st_game := set_godfather i False (set_godfather j True (set_dead i (st_game s))),
            st_events := st_events (announce_death i (players (st_game s) ! i) (role (players (st_game s) ! k)) s) @ [PlayerChannelSend j YouAreGodfather],
            st_draws := Suc (st_draws s)\<rparr>"
  using assms
  unfolding pre_day_player_def Let_def
  by (auto split: if_splits option.splits sum.splits bool.splits elim!: choose_godfather_Inr)

lemma announce_death_game [simp]: "st_game (announce_death i p r s) = st_game s"
  by (simp add: announce_death_def split: option.splits)

lemma announce_death_grow:
  "\<exists>evs ns. st_events (announce_death i p r s) = st_events s @ evs \<and>
     st_notifs (announce_death i p r s) = st_notifs s @ ns"
  by (simp add: announce_death_def split: option.splits)

lemma step_static:
  "pre_day_player rnd i s = Inr s' \<Longrightarrow>
     map without_flags (players (st_game s')) = map without_flags (players (st_game s))"
  by (erule pre_day_player_cases) simp_all

lemma step_dead_other:
  "pre_day_player rnd i s = Inr s' \<Longrightarrow> j \<noteq> i \<Longrightarrow>
     dead (players (st_game s') ! j) = dead (players (st_game s) ! j)"
  by (erule pre_day_player_cases) (simp_all add: dead_set_dead_other)

lemma step_grow:
  assumes "pre_day_player rnd i s = Inr s'"
  shows "\<exists>evs ns. st_events s' = st_events s @ evs \<and> st_notifs s' = st_notifs s @ ns"
  using assms
proof (cases rule: pre_day_player_cases)
  case skip
  then show ?thesis by simp
next
  case (saved k evs)
  then show ?thesis by simp
next
  case (died k)
  obtain evs ns where
    "st_events (announce_death i (players (st_game s) ! i) (role (players (st_game s) ! k)) s)
       = st_events s @ evs"
    "st_notifs (announce_death i (players (st_game s) ! i) (role (players (st_game s) ! k)) s)
       = st_notifs s @ ns"
    using announce_death_grow by blast
  with died(5) show ?thesis by simp
next
  case (succession k j)
  obtain evs ns where
    "st_events (announce_death i (players (st_game s) ! i) (role (players (st_game s) ! k)) s)
       = st_events s @ evs"
    "st_notifs (announce_death i (players (st_game s) ! i) (role (players (st_game s) ! k)) s)
       = st_notifs s @ ns"
    using announce_death_grow by blast
  with succession(6) show ?thesis by simp
qed

lemma announced_announce_death:
  "killed_by (players g ! i) = Some k \<Longrightarrow>
   announced i g (st_events (announce_death i (players g ! i) (role (players g ! k)) s) @ evs)
       (st_notifs (announce_death i (players g ! i) (role (players g ! k)) s))"
  by (auto simp: announced_def announce_death_def split: option.splits)

lemma step_announce:
  assumes "pre_day_player rnd i s = Inr s'"
    and "\<not> dead (players (st_game s) ! i)" and "dead (players (st_game s') ! i)"
  shows "announced i (st_game s) (st_events s') (st_notifs s')"
  using assms
proof (cases rule: pre_day_player_cases)
  case skip then show ?thesis using assms by simp
next
  case (saved k evs) then show ?thesis using assms by simp
next
  case (died k)
  then show ?thesis
    using announced_announce_death[of "st_game s" i k s "[]"] by simp
next
  case (succession k j)
  then show ?thesis
    using announced_announce_death[of "st_game s" i k s "[PlayerChannelSend j YouAreGodfather]"] by simp
qed

lemma loop_frame:
  "pre_day_loop rnd js s = Inr s' \<Longrightarrow>
     map without_flags (players (st_game s')) = map without_flags (players (st_game s)) \<and>
     (\<forall>j. j \<notin> set js \<longrightarrow> dead (players (st_game s') ! j) = dead (players (st_game s) ! j)) \<and>
     (\<exists>evs ns. st_events s' = st_events s @ evs \<and> st_notifs s' = st_notifs s @ ns)"
proof (induction js arbitrary: s)
  case Nil
  then show ?case by simp
next
  case (Cons i js)
  from Cons.prems obtain s1 where s1: "pre_day_player rnd i s = Inr s1"
    and rest: "pre_day_loop rnd js s1 = Inr s'"
    by (auto split: sum.splits)
  note ih = Cons.IH[OF rest]
  have a: "map without_flags (players (st_game s')) = map without_flags (players (st_game s))"
    using ih step_static[OF s1] by simp
  have b: "\<forall>j. j \<notin> set (i # js) \<longrightarrow>
      dead (players (st_game s') ! j) = dead (players (st_game s) ! j)"
    using ih step_dead_other[OF s1] by simp
  from step_grow[OF s1] obtain e1 n1 where
    g1: "st_events s1 = st_events s @ e1" "st_notifs s1 = st_notifs s @ n1" by blast
  from ih obtain e2 n2 where
    g2: "st_events s' = st_events s1 @ e2" "st_notifs s' = st_notifs s1 @ n2" by blast
  have c: "\<exists>evs ns. st_events s' = st_events s @ evs \<and> st_notifs s' = st_notifs s @ ns"
    using g1 g2 by simp
  from a b c show ?case by blast
qed

lemma loop_announce:
  assumes "pre_day_loop rnd js s = Inr s'" and "distinct js"
    and "\<not> dead (players (st_game s) ! i)" and "dead (players (st_game s') ! i)"
  shows "announced i (st_game s) (st_events s') (st_notifs s')"
  using assms
proof (induction js arbitrary: s)
  case Nil
  then show ?case by simp
next
  case (Cons j js)
  from Cons.prems obtain s1 where s1: "pre_day_player rnd j s = Inr s1"
    and rest: "pre_day_loop rnd js s1 = Inr s'"
    by (auto split: sum.splits)
  have st: "map without_flags (players (st_game s1)) = map without_flags (players (st_game s))"
    by (rule step_static[OF s1])
  show ?case
  proof (cases "dead (players (st_game s1) ! i)")
    case True
    then have ji: "j = i" using step_dead_other[OF s1, of i] Cons.prems(3) by auto
    have a1: "announced i (st_game s) (st_events s1) (st_notifs s1)"
      using step_announce[OF s1[unfolded ji]] Cons.prems(3) True ji by simp
    from loop_frame[OF rest] obtain evs ns where
      "st_events s' = st_events s1 @ evs" "st_notifs s' = st_notifs s1 @ ns" by auto
    with announced_mono[OF a1] show ?thesis by simp
  next
    case False
    from Cons.prems(2) have "distinct js" by simp
    from Cons.IH[OF rest this False Cons.prems(4)]
    show ?thesis using announced_static[OF st] by simp
  qed
qed


lemma public_names_append [simp]:
  "public_names (evs @ evs') = public_names evs @ public_names evs'"
  by (simp add: public_names_def)

lemma public_names_private:
  "set evs \<subseteq> {PlayerChannelSend a m, MafiaChatSend m'} \<Longrightarrow> public_names evs = []"
  by (induction evs) (auto simp: public_names_def)

lemma public_inv_announce_death:
  assumes "public_inv g0 s" and "cleaned_by p = cleaned_by (players g0 ! i)"
  shows "public_inv g0 ((announce_death i p r s)\<lparr>st_game := g\<rparr>)"
    and "public_inv g0 ((announce_death i p r s)
          \<lparr>st_game := g, st_events := st_events (announce_death i p r s)
              @ [PlayerChannelSend j YouAreGodfather], st_draws := d\<rparr>)"
  using assms
  by (auto simp: public_inv_def announce_death_def public_names_def split: option.splits)

lemma step_inv:
  assumes "pre_day_player rnd i s = Inr s'"
    and "map without_flags (players (st_game s)) = map without_flags (players g0)"
    and "public_inv g0 s"
  shows "public_inv g0 s'"
proof -
  have cl: "cleaned_by (players (st_game s) ! i) = cleaned_by (players g0 ! i)"
    using without_flags_nth[OF assms(2), of i] by (rule without_flags_fields)
  from assms(1) show ?thesis
  proof (cases rule: pre_day_player_cases)
    case skip
    then show ?thesis using assms(3) by simp
  next
    case (saved k evs)
    from saved(5) have "public_names evs = []" by (rule public_names_private)
    with saved(4) assms(3) show ?thesis by (simp add: public_inv_def)
  next
    case (died k)
    show ?thesis unfolding died(5) using assms(3) cl by (rule public_inv_announce_death)
  next
    case (succession k j)
    show ?thesis unfolding succession(6) using assms(3) cl by (rule public_inv_announce_death)
  qed
qed

lemma loop_inv:
  assumes "pre_day_loop rnd js s = Inr s'"
    and "map without_flags (players (st_game s)) = map without_flags (players g0)"
    and "public_inv g0 s"
  shows "public_inv g0 s'"
  using assms
proof (induction js arbitrary: s)
  case Nil
  then show ?case by simp
next
  case (Cons i js)
  from Cons.prems obtain s1 where s1: "pre_day_player rnd i s = Inr s1"
    and rest: "pre_day_loop rnd js s1 = Inr s'"
    by (auto split: sum.splits)
  have "map without_flags (players (st_game s1)) = map without_flags (players g0)"
    using step_static[OF s1] Cons.prems(2) by simp
  moreover have "public_inv g0 s1" using s1 Cons.prems(2,3) by (rule step_inv)
  ultimately show ?case using Cons.IH[OF rest] by simp
qed

lemma dead_cleanup_living:
  "i < length (players g) \<Longrightarrow> dead (players (cleanup_living g) ! i) = dead (players g ! i)"
  by (simp add: cleanup_living_def cleanup_attrs_def)

text \<open>C5, as the code has it. A player who dies to a night kill in \<open>pre_day\<close>: if the body
  was cleaned, the cleaner's own channel receives the notice with the victim's role, and no
  message of any kind sent in public (chat or day notification) names the victim; if it was
  not cleaned, the chat announces the death and the day notification carries the notice
  naming the victim, its role and the role of the killer (\<open>str(killer)\<close>, the name of the
  killer's class), not the player who killed.\<close>

theorem night_kill_notifications:
  assumes ok: "pre_day rnd g = Inr (g', evs)"
    and i: "i < length (players g)"
    and alive: "\<not> dead (players g ! i)"
    and died: "dead (players g' ! i)"
  shows "case cleaned_by (players g ! i) of
           Some c \<Rightarrow>
             PlayerChannelSend c (Cleaned i (role (players g ! i))) \<in> set evs \<and>
             i \<notin> set (public_names evs)
         | None \<Rightarrow>
             ChatSend (KilledDuringNight i (role (players g ! i))) \<in> set evs \<and>
             (\<exists>k ns. killed_by (players g ! i) = Some k \<and> DayNotification ns \<in> set evs \<and>
                KilledBy i (role (players g ! i)) (role (players g ! k)) \<in> set ns)"
proof (cases "day g > 1")
  case False
  with ok have "g' = cleanup_living g" by (simp add: pre_day_def)
  with i alive died show ?thesis by (simp add: dead_cleanup_living)
next
  case True
  let ?s0 = "\<lparr>st_game = g, st_notifs = [], st_killed = [], st_events = [], st_draws = 0\<rparr>"
  from ok True obtain s where
    loop: "pre_day_loop rnd [0..<length (players g)] ?s0 = Inr s"
    and g': "g' = cleanup_living (st_game s)"
    and evs: "evs = st_events s
        @ [DayNotification (st_notifs s @ (if st_killed s = [] then [NoOneKilled] else []))]"
    by (auto simp: pre_day_def split: sum.splits)
  have st: "map without_flags (players (st_game s)) = map without_flags (players g)"
    using loop_frame[OF loop] by simp
  then have len: "length (players (st_game s)) = length (players g)"
    by (rule map_eq_imp_length_eq)
  have dead_s: "dead (players (st_game s) ! i)"
    using died g' i len by (simp add: dead_cleanup_living)
  have ann: "announced i g (st_events s) (st_notifs s)"
    using loop_announce[OF loop _ _ dead_s] alive by simp
  have inv: "public_inv g s"
    by (rule loop_inv[OF loop]) (simp_all add: public_inv_def public_names_def)
  show ?thesis
  proof (cases "cleaned_by (players g ! i)")
    case (Some c)
    have "i \<notin> set (public_names evs)"
    proof
      assume "i \<in> set (public_names evs)"
      then have "i \<in> set (public_names (st_events s)) \<union> set (concat (map named_in (st_notifs s)))"
        unfolding evs by (auto simp: public_names_def split: if_splits)
      with inv have "cleaned_by (players g ! i) = None" unfolding public_inv_def by blast
      with Some show False by simp
    qed
    with ann Some show ?thesis by (simp add: announced_def evs)
  next
    case None
    with ann show ?thesis by (auto simp: announced_def evs split: option.splits)
  qed
qed

lemma cleaned_night_game_run:
  "pre_day (\<lambda>_. 0) cleaned_night_game = Inr (cleaned_night_after, cleaned_night_events)"
  by code_simp

theorem night_kill_notifications_witness:
  "pre_day (\<lambda>_. 0) cleaned_night_game = Inr (cleaned_night_after, cleaned_night_events) \<and>
   \<not> dead (players cleaned_night_game ! 2) \<and> dead (players cleaned_night_after ! 2) \<and>
   cleaned_by (players cleaned_night_game ! 2) = Some 1 \<and>
   PlayerChannelSend 1 (Cleaned 2 Citizen) \<in> set cleaned_night_events \<and>
   2 \<notin> set (public_names cleaned_night_events) \<and>
   \<not> dead (players cleaned_night_game ! 3) \<and> dead (players cleaned_night_after ! 3) \<and>
   cleaned_by (players cleaned_night_game ! 3) = None \<and>
   ChatSend (KilledDuringNight 3 Doctor) \<in> set cleaned_night_events \<and>
   (\<exists>k ns. killed_by (players cleaned_night_game ! 3) = Some k \<and>
      DayNotification ns \<in> set cleaned_night_events \<and>
      KilledBy 3 Doctor (role (players cleaned_night_game ! k)) \<in> set ns)"
proof -
  have a2: "\<not> dead (players cleaned_night_game ! 2)" "dead (players cleaned_night_after ! 2)"
    "2 < length (players cleaned_night_game)"
    "cleaned_by (players cleaned_night_game ! 2) = Some 1"
    "role (players cleaned_night_game ! 2) = Citizen"
    by (simp_all add: cleaned_night_game_def cleaned_night_after_def new_player_def)
  have a3: "\<not> dead (players cleaned_night_game ! 3)" "dead (players cleaned_night_after ! 3)"
    "3 < length (players cleaned_night_game)"
    "cleaned_by (players cleaned_night_game ! 3) = None"
    "role (players cleaned_night_game ! 3) = Doctor"
    by (simp_all add: cleaned_night_game_def cleaned_night_after_def new_player_def)
  from night_kill_notifications[OF cleaned_night_game_run a2(3) a2(1) a2(2)]
  have c2: "PlayerChannelSend 1 (Cleaned 2 Citizen) \<in> set cleaned_night_events \<and>
      2 \<notin> set (public_names cleaned_night_events)"
    by (simp add: a2)
  from night_kill_notifications[OF cleaned_night_game_run a3(3) a3(1) a3(2)]
  have c3: "ChatSend (KilledDuringNight 3 Doctor) \<in> set cleaned_night_events \<and>
      (\<exists>k ns. killed_by (players cleaned_night_game ! 3) = Some k \<and>
        DayNotification ns \<in> set cleaned_night_events \<and>
        KilledBy 3 Doctor (role (players cleaned_night_game ! k)) \<in> set ns)"
    by (simp add: a3)
  show ?thesis using cleaned_night_game_run a2 a3 c2 c3 by simp
qed

text \<open>C5 as stated fails: what is announced does not tell who killed. Whether the one
  sheriff or the other shot the mafioso, \<open>pre_day\<close> sends the same messages, which name the
  killer's class.\<close>

theorem killer_named_by_role_only:
  "killed_by (players killer_a_game ! 1) = Some 2 \<and>
   killed_by (players killer_b_game ! 1) = Some 3 \<and>
   map_sum id snd (pre_day (\<lambda>_. 0) killer_a_game)
     = Inr [ChatSend (KilledDuringNight 1 Mafia), DayNotification [KilledBy 1 Mafia Sheriff]] \<and>
   map_sum id snd (pre_day (\<lambda>_. 0) killer_b_game)
     = Inr [ChatSend (KilledDuringNight 1 Mafia), DayNotification [KilledBy 1 Mafia Sheriff]]"
  by code_simp

text \<open>C1, at a concrete night. The claim has the target die exactly when the attack tier
  is strictly above the defense tier. \<open>pre_day\<close> decides the other way round when the
  target is protected: the citizen under the doctor's powerful defense dies of the
  godfather's basic attack (an attack that the test of \<open>night_tasks\<close>,
  \<open>defense_type >= attack_type\<close>, counts as failed), and the prisoner under the jailor's
  powerful defense survives the jailor's unstoppable attack.\<close>

theorem pre_day_tier_test_inverted:
  "attack_gt (attack_type (players tier_night_game ! 0)) (defense_type (players tier_night_game ! 2))
     = Inr False \<and>
   defense_ge (defense_type (players tier_night_game ! 2)) (attack_type (players tier_night_game ! 0))
     = Inr True \<and>
   attack_gt (attack_type (players tier_night_game ! 4)) (defense_type (players tier_night_game ! 4))
     = Inr True \<and>
   (case pre_day (\<lambda>_. 0) tier_night_game of
      Inl e \<Rightarrow> False
    | Inr (g', evs) \<Rightarrow>
        dead (players g' ! 1) \<and> \<not> dead (players g' ! 3) \<and>
        evs = [ChatSend (KilledDuringNight 1 Citizen), PlayerChannelSend 3 (SavedBy Jailor),
               DayNotification [KilledBy 1 Citizen Mafia]])"
  by code_simp

text \<open>C4, at a concrete night. Before \<open>pre_day\<close> the one living godfather is player 0 and
  two mafia live. The sheriff's shot kills him; the draw is over every plain mafia of the
  roster, the dead included, and with the draw 0 it lands on the dead godfather himself,
  whose flag \<open>pre_day\<close> then clears. One mafioso lives on and nobody is godfather. The
  same happens by day: the town lynches the godfather, the draw 0 lands on him, and the
  living mafioso is left without a godfather.\<close>

theorem no_godfather_after_succession:
  "living_godfathers succession_game = [0] \<and>
   godfather_candidates (set_dead 0 succession_game) = [0, 1] \<and>
   (case pre_day (\<lambda>_. 0) succession_game of
      Inl e \<Rightarrow> False
    | Inr (g', evs) \<Rightarrow>
        total_mafia g' = 1 \<and> living_godfathers g' = [] \<and> godfather g' = None \<and>
        evs = [ChatSend (KilledDuringNight 0 Mafia), PlayerChannelSend 0 YouAreGodfather,
               DayNotification [KilledBy 0 Mafia Sheriff]]) \<and>
   living_godfathers second_day_game = [0] \<and>
   (case day_tasks (\<lambda>_ _. None) lynch_input_draw0 second_day_game of
      (g', evs) \<Rightarrow>
        lynched (players g' ! 0) \<and> total_mafia g' = 1 \<and> living_godfathers g' = [] \<and>
        godfather g' = None \<and>
        evs = [ChatSend (NominatedForHanging 0), PlayerChannelSend 0 YouAreGodfather,
               DayNotification [TownLynched 0 Mafia]])"
  by code_simp


subsection \<open>Nominations\<close>






subsection \<open>Updating one player\<close>

lemma map_list_update_same:
  "h y = h (xs ! i) \<Longrightarrow> map h (xs[i := y]) = map h xs"
proof (cases "i < length xs")
  case True
  assume "h y = h (xs ! i)"
  with True have "(map h xs)[i := h y] = map h xs"
    by (simp add: list_update_same_conv)
  then show ?thesis by (simp add: map_update)
next
  case False
  then show ?thesis by (simp add: list_update_beyond not_less)
qed

lemma map_update_player:
  "(\<And>p. h (f p) = h p) \<Longrightarrow> map h (players (update_player t f g)) = map h (players g)"
  by (simp add: update_player_def map_list_update_same)

lemma list_all_list_update:
  "list_all P xs \<Longrightarrow> (i < length xs \<Longrightarrow> P y) \<Longrightarrow> list_all P (xs[i := y])"
proof (cases "i < length xs")
  case True
  assume "list_all P xs" "i < length xs \<Longrightarrow> P y"
  with True show ?thesis by (simp add: list_all_length nth_list_update)
next
  case False
  assume "list_all P xs"
  with False show ?thesis by (simp add: list_update_beyond not_less)
qed

lemma list_all_update_player:
  "list_all P (players g) \<Longrightarrow> (\<And>p. P p \<Longrightarrow> P (f p)) \<Longrightarrow> list_all P (players (update_player t f g))"
proof -
  assume a: "list_all P (players g)" and f: "\<And>p. P p \<Longrightarrow> P (f p)"
  have "t < length (players g) \<Longrightarrow> P (f (players g ! t))"
    using a f by (simp add: list_all_length)
  with a show ?thesis unfolding update_player_def by (simp add: list_all_list_update)
qed

lemma first_index_update:
  "P y = P (xs ! i) \<Longrightarrow> first_index P (xs[i := y]) = first_index P xs"
proof (induction xs arbitrary: i)
  case Nil
  then show ?case by simp
next
  case (Cons x xs)
  then show ?case by (cases i) simp_all
qed

subsection \<open>The first day\<close>

lemma day_task_flags:
  assumes "day_task i c g = Inr g'"
  shows "map (\<lambda>p. (dead p, lynched p)) (players g') = map (\<lambda>p. (dead p, lynched p)) (players g)"
proof -
  have a: "map (\<lambda>p. (dead p, lynched p)) (players (update_player t f h)) = map (\<lambda>p. (dead p, lynched p)) (players h)"
    if "\<And>p. dead (f p) = dead p" "\<And>p. lynched (f p) = lynched p" for t f h
    by (rule map_update_player) (simp add: that)
  from assms show ?thesis
    by (auto simp: day_task_def Jailor_day_with_def a jail_def visit_def
        split: if_splits sum.splits option.splits)
qed

lemma day_task_loop_flags:
  "map (\<lambda>p. (dead p, lynched p)) (players (day_task_loop cs js g)) = map (\<lambda>p. (dead p, lynched p)) (players g)"
proof (induction js arbitrary: g)
  case Nil
  then show ?case by simp
next
  case (Cons i js)
  show ?case
  proof (cases "day_task i (cs i) g")
    case (Inl e)
    then show ?thesis using Cons.IH[of g] by simp
  next
    case (Inr g')
    then show ?thesis using Cons.IH[of g'] Cons.IH[of g] day_task_flags[OF Inr] by simp
  qed
qed

text \<open>C10. On day 1 (\<open>_day\<close> not above 1) \<open>day_tasks\<close> never starts the nomination prompt:
  whatever is posted, answered or voted, it sends nothing (no vote is opened, nobody is
  announced lynched) and no player's \<open>dead\<close> or \<open>lynched\<close> flag changes. A lynching
  therefore needs \<open>_day\<close> to be at least 2.\<close>

theorem no_lynch_on_first_day:
  assumes "day g \<le> 1"
  shows "snd (day_tasks best inp g) = [] \<and>
         map dead (players (fst (day_tasks best inp g))) = map dead (players g) \<and>
         map lynched (players (fst (day_tasks best inp g))) = map lynched (players g)"
proof -
  let ?g1 = "day_task_loop (in_choices inp) [0..<length (players g)] g"
  from assms have dt: "day_tasks best inp g = (?g1, [])"
    by (simp add: day_tasks_def)
  have "map (\<lambda>p. (dead p, lynched p)) (players ?g1) = map (\<lambda>p. (dead p, lynched p)) (players g)"
    by (rule day_task_loop_flags)
  then have "map fst (map (\<lambda>p. (dead p, lynched p)) (players ?g1)) = map fst (map (\<lambda>p. (dead p, lynched p)) (players g))"
    "map snd (map (\<lambda>p. (dead p, lynched p)) (players ?g1)) = map snd (map (\<lambda>p. (dead p, lynched p)) (players g))"
    by simp_all
  then have "map dead (players ?g1) = map dead (players g)" "map lynched (players ?g1) = map lynched (players g)"
    by (simp_all add: comp_def)
  with dt show ?thesis by simp
qed

subsection \<open>The janitor\<close>

lemma never_cleaned_update_player:
  "never_cleaned g \<Longrightarrow> (\<And>p. cleans (f p) = cleans p \<and> cleaned_by (f p) = cleaned_by p) \<Longrightarrow>
     never_cleaned (update_player t f g)"
  unfolding never_cleaned_def by (rule list_all_update_player) simp_all

lemma set_godfather_update: "set_godfather i b g = update_player i (\<lambda>p. p\<lparr>is_godfather := b\<rparr>) g"
  by (simp add: set_godfather_def update_player_def)

lemma set_dead_update: "set_dead i g = update_player i (\<lambda>p. p\<lparr>dead := True\<rparr>) g"
  by (simp add: set_dead_def update_player_def)

lemma set_lynched_update: "set_lynched i g = update_player i (\<lambda>p. p\<lparr>dead := True, lynched := True\<rparr>) g"
  by (simp add: set_lynched_def update_player_def)

lemma never_cleaned_flags:
  "never_cleaned g \<Longrightarrow> never_cleaned (set_godfather i b g)"
  "never_cleaned g \<Longrightarrow> never_cleaned (set_dead i g)"
  "never_cleaned g \<Longrightarrow> never_cleaned (set_lynched i g)"
  by (simp_all add: set_godfather_update set_dead_update set_lynched_update never_cleaned_update_player)

lemma never_cleaned_choose_godfather:
  "never_cleaned g \<Longrightarrow> choose_godfather r g = Inr (g', evs) \<Longrightarrow> never_cleaned g'"
  by (erule choose_godfather_Inr) (simp add: never_cleaned_flags)

lemma never_cleaned_nth:
  "never_cleaned g \<Longrightarrow> i < length (players g) \<Longrightarrow>
     cleans (players g ! i) = 3 \<and> cleaned_by (players g ! i) = None"
  by (simp add: never_cleaned_def list_all_length)

lemma candidates_in_range: "j \<in> set (godfather_candidates g) \<Longrightarrow> j < length (players g)"
  by (simp add: godfather_candidates_def)

lemma step_never_cleaned:
  assumes "pre_day_player rnd i s = Inr s'" and "i < length (players (st_game s))"
    and "never_cleaned (st_game s)" and "\<not> list_ex is_cleaner_notice (st_events s)"
  shows "never_cleaned (st_game s') \<and> \<not> list_ex is_cleaner_notice (st_events s')"
proof -
  have cl: "cleaned_by (players (st_game s) ! i) = None"
    using never_cleaned_nth[OF assms(3,2)] by simp
  have ann: "\<not> list_ex is_cleaner_notice (st_events (announce_death i (players (st_game s) ! i) r s))" for r
    using assms(4) cl by (simp add: announce_death_def)
  from assms(1) show ?thesis
  proof (cases rule: pre_day_player_cases)
    case skip
    then show ?thesis using assms by simp
  next
    case (saved k evs)
    from saved(5) have "\<not> list_ex is_cleaner_notice evs" by (auto simp: list_ex_iff)
    with saved(4) assms show ?thesis by simp
  next
    case (died k)
    then show ?thesis using ann assms(3) by (simp add: never_cleaned_flags)
  next
    case (succession k j)
    then show ?thesis using ann assms(3) by (simp add: never_cleaned_flags)
  qed
qed

lemma loop_never_cleaned:
  assumes "pre_day_loop rnd js s = Inr s'" and "\<forall>i \<in> set js. i < length (players (st_game s))"
    and "never_cleaned (st_game s)" and "\<not> list_ex is_cleaner_notice (st_events s)"
  shows "never_cleaned (st_game s') \<and> \<not> list_ex is_cleaner_notice (st_events s')"
  using assms
proof (induction js arbitrary: s)
  case Nil
  then show ?case by simp
next
  case (Cons i js)
  from Cons.prems(1) obtain s1 where s1: "pre_day_player rnd i s = Inr s1"
    and rest: "pre_day_loop rnd js s1 = Inr s'"
    by (auto split: sum.splits)
  have len: "length (players (st_game s1)) = length (players (st_game s))"
    using step_static[OF s1] by (rule map_eq_imp_length_eq)
  have i: "i < length (players (st_game s))" using Cons.prems(2) by simp
  have "never_cleaned (st_game s1) \<and> \<not> list_ex is_cleaner_notice (st_events s1)"
    by (rule step_never_cleaned[OF s1 i Cons.prems(3,4)])
  moreover have "\<forall>i \<in> set js. i < length (players (st_game s1))"
    using Cons.prems(2) len by simp
  ultimately show ?case using Cons.IH[OF rest] by simp
qed

lemma never_cleaned_cleanup_living: "never_cleaned g \<Longrightarrow> never_cleaned (cleanup_living g)"
  by (auto simp: never_cleaned_def cleanup_living_def cleanup_attrs_def list_all_iff)

lemma pre_day_never_cleaned:
  assumes "pre_day rnd g = Inr (g', evs)" and "never_cleaned g"
  shows "never_cleaned g' \<and> \<not> list_ex is_cleaner_notice evs"
proof (cases "day g > 1")
  case False
  with assms show ?thesis by (auto simp: pre_day_def never_cleaned_cleanup_living)
next
  case True
  let ?s0 = "\<lparr>st_game = g, st_notifs = [], st_killed = [], st_events = [], st_draws = 0\<rparr>"
  from assms(1) True obtain s where
    loop: "pre_day_loop rnd [0..<length (players g)] ?s0 = Inr s"
    and g': "g' = cleanup_living (st_game s)"
    and evs: "evs = st_events s
        @ [DayNotification (st_notifs s @ (if st_killed s = [] then [NoOneKilled] else []))]"
    by (auto simp: pre_day_def split: sum.splits)
  have "never_cleaned (st_game s) \<and> \<not> list_ex is_cleaner_notice (st_events s)"
    by (rule loop_never_cleaned[OF loop]) (simp_all add: assms(2))
  then show ?thesis by (simp add: g' evs never_cleaned_cleanup_living)
qed

lemma never_cleaned_day_task:
  "never_cleaned g \<Longrightarrow> day_task i c g = Inr g' \<Longrightarrow> never_cleaned g'"
  by (auto simp: day_task_def Jailor_day_with_def never_cleaned_update_player jail_def visit_def
      split: if_splits sum.splits option.splits)

lemma never_cleaned_day_task_loop: "never_cleaned g \<Longrightarrow> never_cleaned (day_task_loop cs js g)"
proof (induction js arbitrary: g)
  case Nil
  then show ?case by simp
next
  case (Cons i js)
  show ?case
  proof (cases "day_task i (cs i) g")
    case (Inl e)
    then show ?thesis using Cons by simp
  next
    case (Inr g')
    with Cons.prems have "never_cleaned g'" by (rule never_cleaned_day_task)
    then show ?thesis using Cons Inr by simp
  qed
qed

lemma never_cleaned_lynch: "never_cleaned g \<Longrightarrow> never_cleaned (fst (lynch r t g))"
  by (auto simp: lynch_def Let_def never_cleaned_flags split: sum.splits
      intro: never_cleaned_choose_godfather[OF never_cleaned_flags(3)])

lemma never_cleaned_day_tasks: "never_cleaned g \<Longrightarrow> never_cleaned (fst (day_tasks best inp g))"
proof -
  assume nc: "never_cleaned g"
  let ?g1 = "day_task_loop (in_choices inp) [0..<length (players g)] g"
  have g1: "never_cleaned ?g1" using nc by (rule never_cleaned_day_task_loop)
  have L: "never_cleaned g2" if "lynch (in_draw inp) t ?g1 = (g2, evs)" for t g2 evs
    using never_cleaned_lynch[OF g1, of "in_draw inp" t] that by simp
  show ?thesis using g1 L
    by (auto simp: day_tasks_def Let_def split: prod.splits option.splits)
qed

lemma Janitor_returns_early:
  "cleans (players g ! j) \<le> 3 \<Longrightarrow> Janitor_night_with j asked g = Inr g"
  by (simp add: Janitor_night_with_def)

lemma never_cleaned_Sheriff:
  "never_cleaned g \<Longrightarrow> Sheriff_night_with s asked g = Inr g' \<Longrightarrow> never_cleaned g'"
  by (auto simp: Sheriff_night_with_def never_cleaned_update_player kill_def visit_def
      split: sum.splits option.splits)

lemma step_action_never_cleaned:
  "never_cleaned g \<Longrightarrow> step a g = Some g' \<Longrightarrow> never_cleaned g'"
proof (cases a)
  case (Choose r)
  assume "never_cleaned g" "step a g = Some g'"
  with Choose show ?thesis
    by (auto split: sum.splits dest: never_cleaned_choose_godfather)
next
  case (Morning rnd)
  assume "never_cleaned g" "step a g = Some g'"
  with Morning show ?thesis
    by (auto split: sum.splits dest: pre_day_never_cleaned)
next
  case (Daytime best inp)
  assume "never_cleaned g" "step a g = Some g'"
  with Daytime show ?thesis by (auto simp: never_cleaned_day_tasks)
next
  case NextDay
  assume "never_cleaned g" "step a g = Some g'"
  with NextDay show ?thesis by (auto simp: never_cleaned_def)
next
  case (JanitorNight j asked)
  assume "never_cleaned g" "step a g = Some g'"
  with JanitorNight have j: "j < length (players g)"
    and g': "g' = (case Janitor_night_with j asked g of Inl e \<Rightarrow> g | Inr h \<Rightarrow> h)"
    and nc: "never_cleaned g"
    by (auto split: if_splits)
  from never_cleaned_nth[OF nc j] have "cleans (players g ! j) \<le> 3" by simp
  then have "Janitor_night_with j asked g = Inr g" by (rule Janitor_returns_early)
  with g' nc show ?thesis by simp
next
  case (SheriffNight s asked)
  assume nc: "never_cleaned g" and st: "step a g = Some g'"
  show ?thesis
  proof (cases "Sheriff_night_with s asked g")
    case (Inl e)
    with SheriffNight st nc show ?thesis by (auto split: if_splits)
  next
    case (Inr h)
    with nc have "never_cleaned h" by (rule never_cleaned_Sheriff)
    with SheriffNight st Inr show ?thesis by (auto split: if_splits)
  qed
qed

lemma run_never_cleaned:
  "never_cleaned g \<Longrightarrow> run acts g = Some g' \<Longrightarrow> never_cleaned g'"
proof (induction acts arbitrary: g)
  case Nil
  then show ?case by simp
next
  case (Cons a acts)
  then show ?case by (auto split: option.splits dest: step_action_never_cleaned)
qed

lemma never_cleaned_start: "never_cleaned (start_game specs)"
  by (simp add: never_cleaned_def start_game_def new_player_def list_all_iff split: prod.splits)

lemma Janitor_cleans_decrease:
  assumes "Janitor_night_with j asked h = Inr h'"
  shows "cleans (players h' ! i) \<le> cleans (players h ! i)"
proof -
  have a: "cleans (players (update_player t f h) ! i) \<le> cleans (players h ! i)"
    if "\<And>p. cleans (f p) \<le> cleans p" for t f h
  proof (cases "t < length (players h)")
    case True
    then show ?thesis using that by (cases "i = t") (simp_all add: update_player_def)
  next
    case False
    then show ?thesis by (simp add: update_player_def list_update_beyond not_less)
  qed
  from assms show ?thesis
    unfolding Janitor_night_with_def
    by (auto split: if_splits sum.splits option.splits simp: clean_def visit_def
        intro!: order_trans[OF a a])
qed

lemma wait_for_player_raises: "wait_for_player answer = Inl TypeError"
  by (simp add: wait_for_player_def call_positional_def)

text \<open>C9. From the roster \<open>pick_players\<close> builds, through any run of the moves above,
  no clean is ever recorded: every \<open>cleans\<close> stays at 3 and every \<open>cleaned_by\<close> stays
  None, so the night task of any janitor returns the game as it found it, whatever its
  prompt would give, and \<open>pre_day\<close> never sends a cleaner's notice. In any game whatever,
  \<open>Janitor.night_task\<close> returns at once when \<open>cleans\<close> is at most 3, and it never raises a
  counter.\<close>

theorem janitor_never_cleans:
  assumes "run acts (start_game specs) = Some g"
  shows "never_cleaned g \<and>
         (\<forall>j asked. j < length (players g) \<longrightarrow> Janitor_night_with j asked g = Inr g) \<and>
         (\<forall>j answer. j < length (players g) \<longrightarrow> Janitor_night_task j answer g = Inr g) \<and>
         (\<forall>rnd g' evs. pre_day rnd g = Inr (g', evs) \<longrightarrow> \<not> list_ex is_cleaner_notice evs) \<and>
         (\<forall>h j asked. cleans (players h ! j) \<le> 3 \<longrightarrow> Janitor_night_with j asked h = Inr h) \<and>
         (\<forall>h j asked h' i. Janitor_night_with j asked h = Inr h' \<longrightarrow>
            cleans (players h' ! i) \<le> cleans (players h ! i))"
proof -
  have nc: "never_cleaned g" using never_cleaned_start assms by (rule run_never_cleaned)
  have w: "Janitor_night_with j asked g = Inr g" if "j < length (players g)" for j asked
    using never_cleaned_nth[OF nc that] by (simp add: Janitor_returns_early)
  then have "Janitor_night_task j answer g = Inr g" if "j < length (players g)" for j answer
    using that by (simp add: Janitor_night_task_def)
  moreover have "\<not> list_ex is_cleaner_notice evs" if "pre_day rnd g = Inr (g', evs)" for rnd g' evs
    using pre_day_never_cleaned[OF that nc] by simp
  ultimately show ?thesis using nc w Janitor_returns_early Janitor_cleans_decrease by blast
qed

theorem janitor_never_cleans_witness:
  "(case run janitor_run (start_game janitor_specs) of
      None \<Rightarrow> False
    | Some g \<Rightarrow>
        length (players g) = 4 \<and> role (players g ! 1) = Janitor \<and> never_cleaned g \<and>
        Janitor_night_with 1 (Inr (Some 2)) g = Inr g \<and>
        Janitor_night_task 1 (Some 2) g = Inr g \<and>
        (case pre_day (\<lambda>_. 0) g of
           Inl e \<Rightarrow> False
         | Inr (g', evs) \<Rightarrow> \<not> list_ex is_cleaner_notice evs))"
proof -
  have "run janitor_run (start_game janitor_specs) \<noteq> None" by code_simp
  then obtain g where g: "run janitor_run (start_game janitor_specs) = Some g" by blast
  have len: "map_option (\<lambda>g. (length (players g), role (players g ! 1)))
      (run janitor_run (start_game janitor_specs)) = Some (4, Janitor)"
    by code_simp
  have pd: "map_option (\<lambda>g. isl (pre_day (\<lambda>_. 0) g))
      (run janitor_run (start_game janitor_specs)) = Some False"
    by code_simp
  from len g have l4: "length (players g) = 4" "role (players g ! 1) = Janitor" by simp_all
  from pd g obtain g' evs where p: "pre_day (\<lambda>_. 0) g = Inr (g', evs)"
    by (cases "pre_day (\<lambda>_. 0) g") auto
  from janitor_never_cleans[OF g] l4 p
  have "never_cleaned g" "Janitor_night_with 1 (Inr (Some 2)) g = Inr g"
    "Janitor_night_task 1 (Some 2) g = Inr g"
    "\<not> list_ex is_cleaner_notice evs"
    by simp_all
  with g l4 p show ?thesis by simp
qed

theorem no_lynch_on_first_day_witness:
  "day first_day_game \<le> 1 \<and>
   snd (day_tasks (\<lambda>_ _. None) lynch_input first_day_game) = [] \<and>
   map dead (players (fst (day_tasks (\<lambda>_ _. None) lynch_input first_day_game)))
     = map dead (players first_day_game) \<and>
   map lynched (players (fst (day_tasks (\<lambda>_ _. None) lynch_input first_day_game)))
     = map lynched (players first_day_game)"
proof -
  have d: "day first_day_game \<le> 1" by (simp add: first_day_game_def)
  from no_lynch_on_first_day[OF d, of "\<lambda>_ _. None" lynch_input] d show ?thesis by simp
qed

subsection \<open>Godfather succession\<close>






lemma is_godfather_set_dead [simp]:
  "is_godfather (players (set_dead j g) ! i) = is_godfather (players g ! i)"
proof (cases "j < length (players g)")
  case True
  then show ?thesis by (cases "i = j") (simp_all add: set_dead_def)
next
  case False
  then show ?thesis by (simp add: set_dead_def list_update_beyond not_less)
qed

lemma length_set_dead [simp]: "length (players (set_dead j g)) = length (players g)"
  by (simp add: set_dead_def)

lemma length_set_godfather [simp]: "length (players (set_godfather j b g)) = length (players g)"
  by (simp add: set_godfather_def)

















subsection \<open>Private choices\<close>

text \<open>C8, at a concrete answer. The sheriff answers its prompt with the id of the dead
  citizen. \<open>get_mafia_player\<close> resolves it and \<open>private_channel_check\<close> returns True:
  the answer is taken as the submission, although the prompt of \<open>wait_for_player\<close> leaves
  dead players out of its choices (\<open>only_alive\<close>) and \<open>nomination_check\<close> refuses a dead
  nominee. The sheriff's own id and a text that resolves to nobody are refused.\<close>

theorem private_check_accepts_dead_target:
  "dead (players second_day_game ! 2) \<and>
   get_mafia_player (\<lambda>_ _. None) second_day_game ''100000000000000002'' = Inr 2 \<and>
   private_channel_check (\<lambda>_ _. None) second_day_game 3 False
     (private_answer ''100000000000000002'') = True \<and>
   private_channel_check (\<lambda>_ _. None) second_day_game 3 False
     (private_answer ''100000000000000003'') = False \<and>
   private_channel_check (\<lambda>_ _. None) second_day_game 3 False
     (private_answer ''nobody'') = False"
  by code_simp


subsection \<open>Disguises\<close>

lemma set_disguise_map:
  "(\<And>p d. h (p\<lparr>disguised_as := d\<rparr>) = h p) \<Longrightarrow>
     map h (players (set_disguise t d g)) = map h (players g)"
  unfolding set_disguise_def by (rule map_update_player) simp

lemma set_disguise_nth:
  "(\<And>p d. h (p\<lparr>disguised_as := d\<rparr>) = h p) \<Longrightarrow>
     h (players (set_disguise t d g) ! k) = h (players g ! k)"
  by (rule map_eq_nth) (rule set_disguise_map)

lemma set_disguise_length [simp]: "length (players (set_disguise t d g)) = length (players g)"
  by (simp add: set_disguise_def update_player_def)

lemma set_disguise_fields [simp]:
  "is_mafia (players (set_disguise t d g) ! k) = is_mafia (players g ! k)"
  "is_citizen (players (set_disguise t d g) ! k) = is_citizen (players g ! k)"
  "member (players (set_disguise t d g) ! k) = member (players g ! k)"
  "dead (players (set_disguise t d g) ! k) = dead (players g ! k)"
  "is_godfather (players (set_disguise t d g) ! k) = is_godfather (players g ! k)"
  by (rule set_disguise_nth, simp add: is_mafia_def is_citizen_def)+

lemma set_disguise_godfather [simp]: "godfather (set_disguise t d g) = godfather g"
  by (simp add: godfather_def)

lemma set_disguise_get_mafia_player [simp]:
  "get_mafia_player best (set_disguise t d g) arg = get_mafia_player best g arg"
proof -
  have n: "map name (players (set_disguise t d g)) = map name (players g)"
    by (rule set_disguise_map) simp
  have f: "first_index (\<lambda>p. member p = u) (players (set_disguise t d g))
      = first_index (\<lambda>p. member p = u) (players g)" for u
    unfolding set_disguise_def update_player_def by (simp add: first_index_update)
  show ?thesis by (simp add: get_mafia_player_def n f Let_def split: option.splits)
qed


text \<open>As the calls are written, \<open>night_tasks\<close> raises where it builds the godfather's
  check and \<open>Sheriff.night_task\<close> raises at its prompt; the comparison of
  \<open>PI.night_task\<close>, behind the same prompt, reads no disguise.\<close>

lemma mafia_check_raises: "mafia_check best g = Inl TypeError"
  by (simp add: mafia_check_def call_positional_def)

lemma PI_same_alignment_disguise:
  "PI_same_alignment (set_disguise t d g) p1 p2 = PI_same_alignment g p1 p2"
  by (simp add: PI_same_alignment_def)

lemma sheriff_night_task_raises: "Sheriff_night_task s answer g = Inl TypeError"
  by (simp add: Sheriff_night_task_def Sheriff_night_with_def wait_for_player_raises)





subsection \<open>The phase flag\<close>

lemma is_day_update [simp]:
  "is_day (update_player t f g) = is_day g" "is_day (set_godfather i b g) = is_day g"
  "is_day (set_dead i g) = is_day g" "is_day (set_lynched i g) = is_day g"
  "is_day (cleanup_living g) = is_day g"
  by (simp_all add: update_player_def set_godfather_def set_dead_def set_lynched_def
      cleanup_living_def)

lemma step_is_day: "pre_day_player rnd i s = Inr s' \<Longrightarrow> is_day (st_game s') = is_day (st_game s)"
  by (erule pre_day_player_cases) simp_all

lemma loop_is_day: "pre_day_loop rnd js s = Inr s' \<Longrightarrow> is_day (st_game s') = is_day (st_game s)"
proof (induction js arbitrary: s)
  case Nil
  then show ?case by simp
next
  case (Cons i js)
  from Cons.prems obtain s1 where s1: "pre_day_player rnd i s = Inr s1"
    and rest: "pre_day_loop rnd js s1 = Inr s'"
    by (auto split: sum.splits)
  from Cons.IH[OF rest] step_is_day[OF s1] show ?case by simp
qed

lemma pre_day_is_day: "pre_day rnd g = Inr (g', evs) \<Longrightarrow> is_day g' = is_day g"
  by (auto simp: pre_day_def split: if_splits sum.splits dest: loop_is_day)

lemma choose_godfather_is_day: "choose_godfather r g = Inr (g', evs) \<Longrightarrow> is_day g' = is_day g"
  by (erule choose_godfather_Inr) simp

lemma day_task_is_day: "day_task i c g = Inr g' \<Longrightarrow> is_day g' = is_day g"
  by (auto simp: day_task_def Jailor_day_with_def split: if_splits sum.splits option.splits)

lemma day_task_loop_is_day: "is_day (day_task_loop cs js g) = is_day g"
proof (induction js arbitrary: g)
  case Nil
  then show ?case by simp
next
  case (Cons i js)
  show ?case
  proof (cases "day_task i (cs i) g")
    case (Inl e)
    then show ?thesis using Cons.IH[of g] by simp
  next
    case (Inr g')
    then show ?thesis using Cons.IH[of g'] Cons.IH[of g] day_task_is_day[OF Inr] by simp
  qed
qed

lemma lynch_is_day: "is_day (fst (lynch r t g)) = is_day g"
  by (auto simp: lynch_def Let_def split: sum.splits dest: choose_godfather_is_day)

lemma day_tasks_is_day: "is_day (fst (day_tasks best inp g)) = is_day g"
proof -
  let ?g1 = "day_task_loop (in_choices inp) [0..<length (players g)] g"
  have L: "is_day g2 = is_day g" if "lynch (in_draw inp) t ?g1 = (g2, evs)" for t g2 evs
    using lynch_is_day[of "in_draw inp" t ?g1] that by (simp add: day_task_loop_is_day)
  show ?thesis using L
    by (auto simp: day_tasks_def Let_def day_task_loop_is_day split: prod.splits option.splits)
qed

lemma step_action_is_day: "step a g = Some g' \<Longrightarrow> is_day g' = is_day g"
proof (cases a)
  case (Choose r)
  assume "step a g = Some g'"
  with Choose show ?thesis by (auto split: sum.splits dest: choose_godfather_is_day)
next
  case (Morning rnd)
  assume "step a g = Some g'"
  with Morning show ?thesis by (auto split: sum.splits dest: pre_day_is_day)
next
  case (Daytime best inp)
  assume "step a g = Some g'"
  with Daytime show ?thesis by (auto simp: day_tasks_is_day)
next
  case NextDay
  assume "step a g = Some g'"
  with NextDay show ?thesis by auto
next
  case (JanitorNight j asked)
  assume "step a g = Some g'"
  with JanitorNight show ?thesis
    by (auto simp: Janitor_night_with_def split: if_splits sum.splits option.splits)
next
  case (SheriffNight s asked)
  assume "step a g = Some g'"
  with SheriffNight show ?thesis
    by (auto simp: Sheriff_night_with_def split: if_splits sum.splits option.splits)
qed

lemma run_is_day: "run acts g = Some g' \<Longrightarrow> is_day g' = is_day g"
proof (induction acts arbitrary: g)
  case Nil
  then show ?case by simp
next
  case (Cons a acts)
  then show ?case by (auto split: option.splits dest: step_action_is_day)
qed

lemma run_from_start_is_day: "run acts (start_game specs) = Some g \<Longrightarrow> is_day g"
  by (drule run_is_day) (simp add: start_game_def)

text \<open>C2, at the check after a night. \<open>is_day\<close> is set to True when the game is made and
  no move writes it, so \<open>Mafia.win_condition\<close> takes its day branch at every check, the
  one after \<open>night_tasks\<close> included. In the third night of this game two mafia and the
  sheriff live: the rule for the night (mafia strictly more than half of the living) holds,
  and the check answers by the rule for the day, that mafia has not won while the sheriff
  lives.\<close>

theorem night_rule_never_applied:
  "(case run night_check_run (start_game night_check_specs) of
      None \<Rightarrow> False
    | Some g \<Rightarrow>
        is_day g \<and> day g = 4 \<and> map dead (players g) = [False, False, False, True, True] \<and>
        map lynched (players g) = [False, False, False, True, True] \<and>
        total_mafia g = 2 \<and> total_alive g = 3 \<and>
        \<not> win_condition_Mafia g \<and> win_condition_Mafia (g\<lparr>is_day := False\<rparr>))"
  by code_simp


subsection \<open>The vote of the day\<close>




lemma get_mafia_player_in_range:
  "get_mafia_player best g arg = Inr i \<Longrightarrow> i < length (players g)"
  by (auto simp: get_mafia_player_def Let_def split: option.splits if_splits)











end
